theory Spec2Isabelle
  imports Main "HOL-Library.AList"
begin

text \<open>
  The lexer, the parser and the executor of the GraphQL library, function by function as
  the Go source has them, and what holds of them: the token stream ends and (on text
  without a byte 0) stays at its end; the parser returns the expected document for
  \<^verbatim>\<open>{ hello }\<close> but does not return on some malformed queries; the executor dispatches on
  the first definition and on the shape of the values it meets, hands on the errors of
  the resolvers unchanged, and panics where it reads through a nil pointer or an
  unexported struct field.
\<close>

section \<open>Tokens (package token)\<close>

text \<open>
  \<^verbatim>\<open>TokenType\<close> is a string type with seventeen distinct constants; the model has one
  constructor per constant (\<open>INT_tok\<close> is the constant \<^verbatim>\<open>INT\<close>).
\<close>

datatype TokenType =
    NoTokenType \<comment> \<open>the zero value of the string type, none of the constants\<close>
  | ILLEGAL | EOF
  | IDENT | INT_tok | STRING
  | ASSIGN | COLON | COMMA | SEMICOLON
  | LPAREN | RPAREN | LBRACE | RBRACE | LBRACKET | RBRACKET
  | DOLLAR | BANG

record Token =
  Type :: TokenType
  Literal :: string

section \<open>Lexer (package lexer)\<close>

text \<open>
  A Go string is a sequence of bytes and \<^typ>\<open>char\<close> is a byte, so the input is a
  \<^typ>\<open>string\<close>. The positions are Go \<^verbatim>\<open>int\<close>s that start at zero and only grow; they are
  natural numbers here.
\<close>

record Lexer =
  input :: string
  position :: nat
  readPosition :: nat
  ch :: char

definition readChar :: "Lexer \<Rightarrow> Lexer" where
  "readChar l =
     l\<lparr> ch := (if readPosition l \<ge> length (input l) then CHR 0x00
                else input l ! readPosition l),
        position := readPosition l,
        readPosition := readPosition l + 1 \<rparr>"

definition lexer_New :: "string \<Rightarrow> Lexer" where
  "lexer_New inp = readChar \<lparr> input = inp, position = 0, readPosition = 0, ch = CHR 0x00 \<rparr>"

text \<open>
  \<^verbatim>\<open>unicode.IsLetter(rune(ch))\<close> on a byte reads the Latin-1 table of the Go standard
  library: the ASCII letters, U+00AA, U+00B5, U+00BA, U+00C0..U+00D6, U+00D8..U+00F6 and
  U+00F8..U+00FF.
\<close>

definition unicode_IsLetter :: "char \<Rightarrow> bool" where
  "unicode_IsLetter c =
     (let n = (of_char c :: nat) in
        (65 \<le> n \<and> n \<le> 90) \<or> (97 \<le> n \<and> n \<le> 122) \<or>
        n = 170 \<or> n = 181 \<or> n = 186 \<or>
        (192 \<le> n \<and> n \<le> 214) \<or> (216 \<le> n \<and> n \<le> 246) \<or> (248 \<le> n \<and> n \<le> 255))"

definition isLetter :: "char \<Rightarrow> bool" where
  "isLetter c = (unicode_IsLetter c \<or> c = CHR ''_'')"

definition isDigit :: "char \<Rightarrow> bool" where
  "isDigit c = ((48::nat) \<le> of_char c \<and> (of_char c :: nat) \<le> 57)"

definition isSpace :: "char \<Rightarrow> bool" where
  "isSpace c = (c = CHR '' '' \<or> c = CHR 0x09 \<or> c = CHR 0x0A \<or> c = CHR 0x0D)"

text \<open>
  The four scanning loops. Each one stops at the byte 0 that \<open>readChar\<close> delivers at the
  end of the input, which is what the termination proofs use.
\<close>

lemma scan_measure:
  "\<not> P (CHR 0x00) \<Longrightarrow>
   (if P (ch (readChar l)) then 1 else 0::nat)
     + (length (input (readChar l)) - readPosition (readChar l))
   < 1 + (length (input l) - readPosition l)"
  by (auto simp: readChar_def)

lemma isSpace_nul: "\<not> isSpace (CHR 0x00)"
  by (simp add: isSpace_def)

lemma isDigit_nul: "\<not> isDigit (CHR 0x00)"
  by (simp add: isDigit_def)

lemma isLetter_nul: "\<not> isLetter (CHR 0x00)"
  by (simp add: isLetter_def unicode_IsLetter_def)

function skipWhitespace :: "Lexer \<Rightarrow> Lexer" where
  "skipWhitespace l = (if isSpace (ch l) then skipWhitespace (readChar l) else l)"
  by pat_completeness auto
termination
proof (relation "measure (\<lambda>l. (if isSpace (ch l) then 1 else 0) + (length (input l) - readPosition l))")
  fix l :: Lexer assume "isSpace (ch l)"
  then show "(readChar l, l) \<in> measure (\<lambda>l. (if isSpace (ch l) then 1 else 0) + (length (input l) - readPosition l))"
    using scan_measure [of isSpace l] isSpace_nul by simp
qed simp

function readIdentifier_loop :: "Lexer \<Rightarrow> Lexer" where
  "readIdentifier_loop l =
     (if isLetter (ch l) \<or> isDigit (ch l) then readIdentifier_loop (readChar l) else l)"
  by pat_completeness auto
termination
proof (relation "measure (\<lambda>l. (if isLetter (ch l) \<or> isDigit (ch l) then 1 else 0)
                               + (length (input l) - readPosition l))")
  fix l :: Lexer assume "isLetter (ch l) \<or> isDigit (ch l)"
  then show "(readChar l, l) \<in> measure (\<lambda>l. (if isLetter (ch l) \<or> isDigit (ch l) then 1 else 0)
                               + (length (input l) - readPosition l))"
    using scan_measure [of "\<lambda>c. isLetter c \<or> isDigit c" l] isLetter_nul isDigit_nul by simp
qed simp

function readNumber_loop :: "Lexer \<Rightarrow> Lexer" where
  "readNumber_loop l = (if isDigit (ch l) then readNumber_loop (readChar l) else l)"
  by pat_completeness auto
termination
proof (relation "measure (\<lambda>l. (if isDigit (ch l) then 1 else 0) + (length (input l) - readPosition l))")
  fix l :: Lexer assume "isDigit (ch l)"
  then show "(readChar l, l) \<in> measure (\<lambda>l. (if isDigit (ch l) then 1 else 0) + (length (input l) - readPosition l))"
    using scan_measure [of isDigit l] isDigit_nul by simp
qed simp

function readString_loop :: "Lexer \<Rightarrow> Lexer" where
  "readString_loop l =
     (if ch l \<noteq> CHR 0x22 \<and> ch l \<noteq> CHR 0x00 then readString_loop (readChar l) else l)"
  by pat_completeness auto
termination
proof (relation "measure (\<lambda>l. (if ch l \<noteq> CHR 0x22 \<and> ch l \<noteq> CHR 0x00 then 1 else 0)
                               + (length (input l) - readPosition l))")
  fix l :: Lexer assume "ch l \<noteq> CHR 0x22 \<and> ch l \<noteq> CHR 0x00"
  then show "(readChar l, l) \<in> measure (\<lambda>l. (if ch l \<noteq> CHR 0x22 \<and> ch l \<noteq> CHR 0x00 then 1 else 0)
                               + (length (input l) - readPosition l))"
    using scan_measure [of "\<lambda>c. c \<noteq> CHR 0x22 \<and> c \<noteq> CHR 0x00" l] by simp
qed simp

text \<open>The loops' equations unfold only where a proof asks for them.\<close>

declare skipWhitespace.simps [simp del]
declare readIdentifier_loop.simps [simp del]
declare readNumber_loop.simps [simp del]
declare readString_loop.simps [simp del]

text \<open>
  The Go slice expression \<^verbatim>\<open>s[i:j]\<close>. Go panics unless \<open>i \<le> j \<le> len(s)\<close>; the lexer only
  slices between a start position and a later position of the same scan, and
  \<open>slice_in_range\<close> below shows that the bounds hold there.
\<close>

definition slice :: "string \<Rightarrow> nat \<Rightarrow> nat \<Rightarrow> string" where
  "slice s i j = take (j - i) (drop i s)"

definition readIdentifier :: "Lexer \<Rightarrow> string \<times> Lexer" where
  "readIdentifier l =
     (let start = position l; l' = readIdentifier_loop l
      in (slice (input l') start (position l'), l'))"

definition readNumber :: "Lexer \<Rightarrow> string \<times> Lexer" where
  "readNumber l =
     (let start = position l; l' = readNumber_loop l
      in (slice (input l') start (position l'), l'))"

definition readString :: "Lexer \<Rightarrow> string \<times> Lexer" where
  "readString l =
     (let l1 = readChar l; start = position l1; l2 = readString_loop l1;
          str = slice (input l2) start (position l2)
      in (str, readChar l2))"

text \<open>
  The conversion \<^verbatim>\<open>string(l.ch)\<close> of a byte gives the UTF-8 encoding of the code point with
  that number: the byte itself below 0x80, and two bytes from there on.
\<close>

definition byte_string :: "char \<Rightarrow> string" where
  "byte_string c =
     (let n = (of_char c :: nat)
      in if n < 128 then [c] else [char_of (192 + n div 64), char_of (128 + n mod 64)])"

text \<open>A token of one byte: the token of the current byte, and the lexer moved past it.\<close>

definition single :: "TokenType \<Rightarrow> Lexer \<Rightarrow> Token \<times> Lexer" where
  "single t l = (\<lparr> Type = t, Literal = byte_string (ch l) \<rparr>, readChar l)"

definition NextToken :: "Lexer \<Rightarrow> Token \<times> Lexer" where
  "NextToken l0 =
     (let l = skipWhitespace l0; c = ch l in
      if c = CHR ''='' then single ASSIGN l
      else if c = CHR '':'' then single COLON l
      else if c = CHR '','' then single COMMA l
      else if c = CHR '';'' then single SEMICOLON l
      else if c = CHR ''('' then single LPAREN l
      else if c = CHR '')'' then single RPAREN l
      else if c = CHR ''{'' then single LBRACE l
      else if c = CHR ''}'' then single RBRACE l
      else if c = CHR ''['' then single LBRACKET l
      else if c = CHR '']'' then single RBRACKET l
      else if c = CHR 0x22 then
        (let (s, l') = readString l in (\<lparr> Type = STRING, Literal = s \<rparr>, l'))
      else if c = CHR ''$'' then single DOLLAR l
      else if c = CHR ''!'' then single BANG l
      else if c = CHR 0x00 then (\<lparr> Type = EOF, Literal = [] \<rparr>, readChar l)
      else if isLetter c then
        (let (s, l') = readIdentifier l in (\<lparr> Type = IDENT, Literal = s \<rparr>, l'))
      else if isDigit c then
        (let (s, l') = readNumber l in (\<lparr> Type = INT_tok, Literal = s \<rparr>, l'))
      else single ILLEGAL l)"


text \<open>
  Calling \<open>NextToken\<close> again and again on the lexer of an input: \<open>lex_after n l\<close> is the lexer
  after \<open>n\<close> calls, and \<open>nth_token s n\<close> is the token that call number \<open>n\<close> (from zero)
  returns on the input \<open>s\<close>.
\<close>

fun lex_after :: "nat \<Rightarrow> Lexer \<Rightarrow> Lexer" where
  "lex_after 0 l = l"
| "lex_after (Suc n) l = lex_after n (snd (NextToken l))"

definition nth_token :: "string \<Rightarrow> nat \<Rightarrow> Token" where
  "nth_token s n = fst (NextToken (lex_after n (lexer_New s)))"

text \<open>
  What \<open>readChar\<close> establishes and every lexer function keeps: the read position is one
  past the position, and the current byte is the byte of the input at the position, or 0
  past the end.
\<close>

definition lexer_inv :: "Lexer \<Rightarrow> bool" where
  "lexer_inv l =
     (readPosition l = position l + 1 \<and>
      ch l = (if position l < length (input l) then input l ! position l else CHR 0x00))"

section \<open>Syntax trees (package ast)\<close>

text \<open>
  A Go pointer that may be nil is an \<open>option\<close>. A Go map with string keys is an association
  list that is only ever extended with \<open>AList.update\<close>, which overwrites the entry of a key
  that is already present, as the assignment \<^verbatim>\<open>m[k] = v\<close> does.
\<close>

datatype Type =
  MkType (Type_Name: string) (NonNull: bool) (IsList: bool) (Elem: "Type option")

record VariableDefinition =
  Variable :: string
  Var_Type :: Type

datatype Value =
  MkValue (Kind: string) (Value_Literal: string)
          (ObjectFields: "(string \<times> Value option) list") (List: "Value option list")

record Argument =
  Arg_Name :: string
  Arg_Value :: "Value option"

text \<open>
  \<^verbatim>\<open>Selection\<close> is an interface. \<open>FieldSel\<close> is an interface value of dynamic type
  \<^verbatim>\<open>*ast.Field\<close>, whose pointer may be nil; \<open>OtherSel\<close> is every other selection (the type
  assertion \<^verbatim>\<open>sel.(*ast.Field)\<close> fails on it).
\<close>

datatype Field =
  MkField (Field_Name: string) (Arguments: "Argument list") (Field_SelectionSet: "SelectionSet option")
and SelectionSet =
  MkSelectionSet (Selections: "Selection list")
and Selection =
  FieldSel "Field option" | OtherSel

record OperationDefinition =
  Operation :: string
  Op_Name :: string
  VariableDefinitions :: "VariableDefinition list"
  Op_SelectionSet :: "SelectionSet option"

record TypeDefinition =
  TD_Name :: string
  Fields :: "Field list"

datatype Definition = OpDef OperationDefinition | TypeDef TypeDefinition

record Document =
  Definitions :: "Definition list"

section \<open>Parser (package parser)\<close>

record Parser =
  lexer :: Lexer
  curToken :: Token
  peekToken :: Token

definition nextToken :: "Parser \<Rightarrow> Parser" where
  "nextToken p =
     (let (t, lx) = NextToken (lexer p)
      in p\<lparr> curToken := peekToken p, peekToken := t, lexer := lx \<rparr>)"

definition parser_New :: "Lexer \<Rightarrow> Parser" where
  "parser_New lx =
     nextToken (nextToken \<lparr> lexer = lx,
                             curToken = \<lparr> Type = NoTokenType, Literal = [] \<rparr>,
                             peekToken = \<lparr> Type = NoTokenType, Literal = [] \<rparr> \<rparr>)"

abbreviation cur :: "Parser \<Rightarrow> TokenType" where
  "cur p \<equiv> Type (curToken p)"

abbreviation lit :: "Parser \<Rightarrow> string" where
  "lit p \<equiv> Literal (curToken p)"

text \<open>The statement \<^verbatim>\<open>if p.curToken.Type == token.COMMA { p.nextToken() }\<close> that ends the
  body of every list loop.\<close>

definition skipComma :: "Parser \<Rightarrow> Parser" where
  "skipComma p = (if cur p = COMMA then nextToken p else p)"

text \<open>
  The parser's loops run until the current token has a given type, and nothing in their
  shape bounds the number of rounds. Every parsing function therefore takes a fuel: a
  bound on the depth of nested calls and loop rounds. \<open>None\<close> means that the fuel ran out,
  so a call of the Go function returns exactly when some fuel gives \<open>Some\<close>, and it never
  returns when every fuel gives \<open>None\<close>. More fuel does not change a result
  (\<open>parse_more_fuel\<close> below).
\<close>

fun parseType :: "nat \<Rightarrow> Parser \<Rightarrow> (Type option \<times> Parser) option" where
  "parseType 0 p = None"
| "parseType (Suc n) p =
     (if cur p = LBRACKET then
        (case parseType n (nextToken p) of
           None \<Rightarrow> None
         | Some (innerType, p1) \<Rightarrow>
             (let p2 = nextToken p1 in
              if cur p2 = BANG
              then Some (Some (MkType [] True True innerType), nextToken p2)
              else Some (Some (MkType [] False True innerType), p2)))
      else if cur p = IDENT then
        (let name = lit p; p1 = nextToken p in
         if cur p1 = BANG
         then Some (Some (MkType name True False None), nextToken p1)
         else Some (Some (MkType name False False None), p1))
      else Some (None, p))"

definition parseVariableDefinitions_body ::
    "nat \<Rightarrow> Parser \<Rightarrow> VariableDefinition list
       \<Rightarrow> ((VariableDefinition list \<times> Parser) + (VariableDefinition list \<times> Parser)) option" where
  \<comment> \<open>\<open>Inl\<close>: the early \<^verbatim>\<open>return vars\<close>; \<open>Inr\<close>: the body ran to its end\<close>
  "parseVariableDefinitions_body n p vars =
     (if cur p = DOLLAR then
        (let p1 = nextToken p in
         if cur p1 \<noteq> IDENT then Some (Inl (vars, p1))
         else
           (let name = lit p1; p2 = nextToken p1 in
            if cur p2 = COLON then
              (case parseType n (nextToken p2) of
                 None \<Rightarrow> None
               | Some (typeParsed, p3) \<Rightarrow>
                   Some (Inr (vars @ [\<lparr> Variable = name,
                                         Var_Type = (case typeParsed of
                                                       Some t \<Rightarrow> t
                                                     | None \<Rightarrow> MkType [] False False None) \<rparr>],
                              skipComma p3)))
            else Some (Inr (vars @ [\<lparr> Variable = name, Var_Type = MkType [] False False None \<rparr>],
                            skipComma p2))))
      else Some (Inr (vars, skipComma p)))"

fun parseVariableDefinitions_loop ::
    "nat \<Rightarrow> Parser \<Rightarrow> VariableDefinition list \<Rightarrow> (VariableDefinition list \<times> Parser) option" where
  "parseVariableDefinitions_loop 0 p vars = None"
| "parseVariableDefinitions_loop (Suc n) p vars =
     (if cur p \<noteq> RPAREN \<and> cur p \<noteq> EOF then
        (case parseVariableDefinitions_body n p vars of
           None \<Rightarrow> None
         | Some (Inl r) \<Rightarrow> Some r
         | Some (Inr (vars', p')) \<Rightarrow> parseVariableDefinitions_loop n p' vars')
      else Some (vars, nextToken p))"

definition parseVariableDefinitions :: "nat \<Rightarrow> Parser \<Rightarrow> (VariableDefinition list \<times> Parser) option" where
  "parseVariableDefinitions n p = parseVariableDefinitions_loop n (nextToken p) []"

definition scalar :: "string \<Rightarrow> string \<Rightarrow> Value" where
  "scalar k s = MkValue k s [] []"

fun parseValue :: "nat \<Rightarrow> Parser \<Rightarrow> (Value \<times> Parser) option"
and parseObject :: "nat \<Rightarrow> Parser \<Rightarrow> (Value \<times> Parser) option"
and parseObject_loop :: "nat \<Rightarrow> Parser \<Rightarrow> (string \<times> Value option) list \<Rightarrow> (Value \<times> Parser) option"
and parseArray :: "nat \<Rightarrow> Parser \<Rightarrow> (Value \<times> Parser) option"
and parseArray_loop :: "nat \<Rightarrow> Parser \<Rightarrow> Value option list \<Rightarrow> (Value \<times> Parser) option" where
  "parseValue 0 p = None"
| "parseValue (Suc n) p =
     (if cur p = LBRACE then parseObject n p
      else if cur p = LBRACKET then parseArray n p
      else if cur p = INT_tok then Some (scalar ''Int'' (lit p), nextToken p)
      else if cur p = STRING then Some (scalar ''String'' (lit p), nextToken p)
      else if cur p = IDENT then
        (if lit p = ''true'' \<or> lit p = ''false''
         then Some (scalar ''Boolean'' (lit p), nextToken p)
         else Some (scalar ''Enum'' (lit p), nextToken p))
      else if cur p = DOLLAR then
        (let p1 = nextToken p in
         if cur p1 = IDENT then Some (scalar ''Variable'' (lit p1), nextToken p1)
         else Some (scalar ''Variable'' [], p1))
      else Some (scalar ''Illegal'' (lit p), nextToken p))"
| "parseObject 0 p = None"
| "parseObject (Suc n) p = parseObject_loop n (nextToken p) []"
| "parseObject_loop 0 p objFields = None"
| "parseObject_loop (Suc n) p objFields =
     (if cur p \<noteq> RBRACE \<and> cur p \<noteq> EOF then
        (if cur p \<noteq> IDENT then Some (scalar ''Illegal'' ''expected object key'', p)
         else
           (let key = lit p; p1 = nextToken p in
            if cur p1 \<noteq> COLON then Some (scalar ''Illegal'' ''expected colon in object'', p1)
            else
              (case parseValue n (nextToken p1) of
                 None \<Rightarrow> None
               | Some (v, p2) \<Rightarrow>
                   parseObject_loop n (skipComma p2) (AList.update key (Some v) objFields))))
      else Some (MkValue ''Object'' [] objFields [], nextToken p))"
| "parseArray 0 p = None"
| "parseArray (Suc n) p = parseArray_loop n (nextToken p) []"
| "parseArray_loop 0 p arr = None"
| "parseArray_loop (Suc n) p arr =
     (if cur p \<noteq> RBRACKET \<and> cur p \<noteq> EOF then
        (case parseValue n p of
           None \<Rightarrow> None
         | Some (v, p1) \<Rightarrow> parseArray_loop n (skipComma p1) (arr @ [Some v]))
      else Some (MkValue ''Array'' [] [] arr, nextToken p))"

definition parseArguments_body :: "nat \<Rightarrow> Parser \<Rightarrow> Argument list \<Rightarrow> (Argument list \<times> Parser) option" where
  "parseArguments_body n p args =
     (if cur p = IDENT then
        (let name = lit p; p1 = nextToken p in
         if cur p1 = COLON then
           (case parseValue n (nextToken p1) of
              None \<Rightarrow> None
            | Some (v, p2) \<Rightarrow>
                Some (args @ [\<lparr> Arg_Name = name, Arg_Value = Some v \<rparr>], skipComma p2))
         else Some (args @ [\<lparr> Arg_Name = name, Arg_Value = None \<rparr>], skipComma p1))
      else Some (args, skipComma p))"

fun parseArguments_loop :: "nat \<Rightarrow> Parser \<Rightarrow> Argument list \<Rightarrow> (Argument list \<times> Parser) option" where
  "parseArguments_loop 0 p args = None"
| "parseArguments_loop (Suc n) p args =
     (if cur p \<noteq> RPAREN \<and> cur p \<noteq> EOF then
        (case parseArguments_body n p args of
           None \<Rightarrow> None
         | Some (args', p') \<Rightarrow> parseArguments_loop n p' args')
      else Some (args, nextToken p))"

definition parseArguments :: "nat \<Rightarrow> Parser \<Rightarrow> (Argument list \<times> Parser) option" where
  "parseArguments n p = parseArguments_loop n (nextToken p) []"

text \<open>
  \<^verbatim>\<open>parseSelection\<close> returns the pointer of \<^verbatim>\<open>parseField\<close> as a value of the interface
  \<^verbatim>\<open>ast.Selection\<close>. Such an interface value carries the dynamic type \<^verbatim>\<open>*ast.Field\<close>
  and is different from nil also when the pointer is nil, so the test \<^verbatim>\<open>sel != nil\<close> of
  \<^verbatim>\<open>parseSelectionSet\<close> always holds and every round of the loop appends.
\<close>

fun parseSelectionSet :: "nat \<Rightarrow> Parser \<Rightarrow> (SelectionSet \<times> Parser) option"
and parseSelectionSet_loop :: "nat \<Rightarrow> Parser \<Rightarrow> Selection list \<Rightarrow> (SelectionSet \<times> Parser) option"
and parseSelection :: "nat \<Rightarrow> Parser \<Rightarrow> (Selection \<times> Parser) option"
and parseField :: "nat \<Rightarrow> Parser \<Rightarrow> (Field option \<times> Parser) option" where
  "parseSelectionSet 0 p = None"
| "parseSelectionSet (Suc n) p = parseSelectionSet_loop n (nextToken p) []"
| "parseSelectionSet_loop 0 p sels = None"
| "parseSelectionSet_loop (Suc n) p sels =
     (if cur p \<noteq> RBRACE \<and> cur p \<noteq> EOF then
        (case parseSelection n p of
           None \<Rightarrow> None
         | Some (sel, p1) \<Rightarrow> parseSelectionSet_loop n (skipComma p1) (sels @ [sel]))
      else Some (MkSelectionSet sels, nextToken p))"
| "parseSelection 0 p = None"
| "parseSelection (Suc n) p =
     (case parseField n p of
        None \<Rightarrow> None
      | Some (f, p1) \<Rightarrow> Some (FieldSel f, p1))"
| "parseField 0 p = None"
| "parseField (Suc n) p =
     (if cur p \<noteq> IDENT then Some (None, p)
      else
        (let name = lit p; p1 = nextToken p in
         case (if cur p1 = LPAREN then parseArguments n p1 else Some ([], p1)) of
           None \<Rightarrow> None
         | Some (args, p2) \<Rightarrow>
             (if cur p2 = LBRACE then
                (case parseSelectionSet n p2 of
                   None \<Rightarrow> None
                 | Some (ss, p3) \<Rightarrow> Some (Some (MkField name args (Some ss)), p3))
              else Some (Some (MkField name args None), p2))))"

definition isOperationKeyword :: "Parser \<Rightarrow> bool" where
  "isOperationKeyword p = (lit p = ''query'' \<or> lit p = ''mutation'' \<or> lit p = ''subscription'')"

definition parseOperationDefinition :: "nat \<Rightarrow> Parser \<Rightarrow> (OperationDefinition \<times> Parser) option" where
  "parseOperationDefinition n p =
     (case
        (if isOperationKeyword p then
           (let operation = lit p; p1 = nextToken p;
                (name, p2) = (if cur p1 = IDENT then (lit p1, nextToken p1) else ([], p1))
            in if cur p2 = LPAREN then
                 (case parseVariableDefinitions n p2 of
                    None \<Rightarrow> None
                  | Some (vars, p3) \<Rightarrow> Some (operation, name, vars, p3))
               else Some (operation, name, [], p2))
         else Some (''query'', [], [], p))
      of
        None \<Rightarrow> None
      | Some (operation, name, vars, p4) \<Rightarrow>
          (if cur p4 = LBRACE then
             (case parseSelectionSet n p4 of
                None \<Rightarrow> None
              | Some (ss, p5) \<Rightarrow>
                  Some (\<lparr> Operation = operation, Op_Name = name,
                          VariableDefinitions = vars, Op_SelectionSet = Some ss \<rparr>, p5))
           else Some (\<lparr> Operation = operation, Op_Name = name,
                        VariableDefinitions = vars, Op_SelectionSet = None \<rparr>, p4)))"

text \<open>The skipping functions of type definitions.\<close>

fun skipParenBlock_loop :: "nat \<Rightarrow> Parser \<Rightarrow> nat \<Rightarrow> Parser option" where
  "skipParenBlock_loop 0 p depth = None"
| "skipParenBlock_loop (Suc n) p depth =
     (if depth > 0 \<and> cur p \<noteq> EOF then
        skipParenBlock_loop n (nextToken p)
          (if cur p = LPAREN then depth + 1 else if cur p = RPAREN then depth - 1 else depth)
      else Some p)"

definition skipParenBlock :: "nat \<Rightarrow> Parser \<Rightarrow> Parser option" where
  "skipParenBlock n p =
     (if cur p \<noteq> LPAREN then Some p else skipParenBlock_loop n (nextToken p) 1)"

definition skipBang :: "Parser \<Rightarrow> Parser" where
  "skipBang p = (if cur p = BANG then nextToken p else p)"

definition skipTypeAnnotation :: "Parser \<Rightarrow> Parser" where
  "skipTypeAnnotation p =
     (if cur p \<noteq> COLON then p
      else
        (let p1 = nextToken p in
         if cur p1 = LBRACKET then
           (let p2 = nextToken p1;
                p3 = (if cur p2 = IDENT then skipBang (nextToken p2) else p2);
                p4 = (if cur p3 = RBRACKET then nextToken p3 else p3)
            in skipBang p4)
         else skipBang (if cur p1 = IDENT then nextToken p1 else p1)))"

definition parseTypeField :: "nat \<Rightarrow> Parser \<Rightarrow> (Field option \<times> Parser) option" where
  "parseTypeField n p =
     (if cur p \<noteq> IDENT then Some (None, p)
      else
        (let name = lit p; p1 = nextToken p in
         case (if cur p1 = LPAREN then skipParenBlock n p1 else Some p1) of
           None \<Rightarrow> None
         | Some p2 \<Rightarrow>
             Some (Some (MkField name [] None),
                   if cur p2 = COLON then skipTypeAnnotation p2 else p2)))"

definition maxIterations :: nat where
  "maxIterations = 10000"

definition skipTypeDefinition_end :: "string \<Rightarrow> Parser \<Rightarrow> Field list \<Rightarrow> Definition option \<times> Parser" where
  \<comment> \<open>the code after the loop\<close>
  "skipTypeDefinition_end typeName p flds =
     (Some (TypeDef \<lparr> TD_Name = typeName, Fields = flds \<rparr>),
      if cur p = RBRACE then nextToken p else p)"

fun skipTypeDefinition_loop ::
    "nat \<Rightarrow> string \<Rightarrow> Parser \<Rightarrow> Field list \<Rightarrow> nat \<Rightarrow> (Definition option \<times> Parser) option" where
  "skipTypeDefinition_loop 0 typeName p flds iterations = None"
| "skipTypeDefinition_loop (Suc n) typeName p flds iterations =
     (if cur p \<noteq> RBRACE \<and> cur p \<noteq> EOF then
        (if iterations + 1 > maxIterations then Some (skipTypeDefinition_end typeName p flds)
         else
           (case parseTypeField n p of
              None \<Rightarrow> None
            | Some (Some field, p1) \<Rightarrow>
                skipTypeDefinition_loop n typeName (skipComma p1) (flds @ [field]) (iterations + 1)
            | Some (None, p1) \<Rightarrow>
                skipTypeDefinition_loop n typeName (skipComma (nextToken p1)) flds (iterations + 1)))
      else Some (skipTypeDefinition_end typeName p flds))"

definition skipTypeDefinition :: "nat \<Rightarrow> Parser \<Rightarrow> (Definition option \<times> Parser) option" where
  "skipTypeDefinition n p =
     (let p1 = nextToken p in
      if cur p1 \<noteq> IDENT then Some (None, p1)
      else
        (let typeName = lit p1; p2 = nextToken p1 in
         if cur p2 \<noteq> LBRACE then Some (None, p2)
         else skipTypeDefinition_loop n typeName (nextToken p2) [] 0))"

definition parseDefinition :: "nat \<Rightarrow> Parser \<Rightarrow> (Definition option \<times> Parser) option" where
  "parseDefinition n p =
     (if isOperationKeyword p \<or> cur p = LBRACE then
        (case parseOperationDefinition n p of
           None \<Rightarrow> None
         | Some (op, p1) \<Rightarrow> Some (Some (OpDef op), p1))
      else if lit p = ''type'' then skipTypeDefinition n p
      else Some (None, nextToken p))"

fun ParseDocument_loop :: "nat \<Rightarrow> Parser \<Rightarrow> Definition list \<Rightarrow> Document option" where
  "ParseDocument_loop 0 p defs = None"
| "ParseDocument_loop (Suc n) p defs =
     (if cur p \<noteq> EOF then
        (case parseDefinition n p of
           None \<Rightarrow> None
         | Some (None, p1) \<Rightarrow> ParseDocument_loop n p1 defs
         | Some (Some d, p1) \<Rightarrow> ParseDocument_loop n p1 (defs @ [d]))
      else Some \<lparr> Definitions = defs \<rparr>)"

definition ParseDocument :: "nat \<Rightarrow> Parser \<Rightarrow> Document option" where
  "ParseDocument n p = ParseDocument_loop n p []"

text \<open>The path of the HTTP handler from the query text to the document.\<close>

definition parse :: "nat \<Rightarrow> string \<Rightarrow> Document option" where
  "parse n query = ParseDocument n (parser_New (lexer_New query))"

section \<open>Executor (package executor)\<close>

subsection \<open>Go values\<close>

text \<open>
  The values of type \<^verbatim>\<open>interface{}\<close> that the executor handles, by the \<^verbatim>\<open>reflect.Kind\<close> it
  tells apart. \<open>GNil\<close> is the nil interface value; a nil pointer inside an interface is
  \<open>GPtr None\<close>, which is a different value. A struct lists its fields in declaration
  order, each with what \<^verbatim>\<open>reflect.StructField\<close> says about it: the name, the value of the
  \<^verbatim>\<open>json\<close> key of its tag when the tag has one, and whether the field is exported.
  A nil slice and an empty slice are both \<open>GSlice []\<close>.
\<close>

record StructField =
  SF_Name :: string
  SF_JsonTag :: "string option"
  SF_Exported :: bool

datatype gval =
    GNil
  | GString string
  | GInt int
  | GBool bool
  | GMap "(string \<times> gval) list"
  | GSlice "gval list"
  | GStruct "(StructField \<times> gval) list"
  | GPtr "gval option"
  | GOther string \<comment> \<open>a value of any other kind (float, array, channel, function, ...)\<close>

subsection \<open>Errors and panics\<close>

text \<open>
  A Go error value is modelled by its message, which is what the caller of \<open>Execute\<close> reads
  of it. \<open>Execute\<close> and the functions it calls make each of their errors with
  \<^verbatim>\<open>fmt.Errorf\<close> from a fixed text; a resolver may return any error, and the executor hands
  it on as it is. A run-time panic (a nil pointer dereference,
  \<^verbatim>\<open>reflect.Value.Interface\<close> on an unexported field) is not an error value: it unwinds the
  call.
\<close>

datatype failure = Error string | Panic

definition NoDefinitions :: string where
  "NoDefinitions = ''no definitions found''"

definition UnsupportedDefinition :: string where
  "UnsupportedDefinition = ''unsupported definition type''"

definition NoResolver :: "string \<Rightarrow> string" where
  "NoResolver name = ''no resolver found for field '' @ name"

definition NoResolverViaReflection :: "string \<Rightarrow> string" where
  "NoResolverViaReflection name = ''no resolver found for field '' @ name @ '' via reflection''"

definition SourceNotStruct :: string where
  "SourceNotStruct = ''source is not a struct''"

definition SourceNil :: string where
  "SourceNil = ''source is nil''"

type_synonym 'a result = "failure + 'a"

definition map_result :: "('a \<Rightarrow> 'b) \<Rightarrow> 'a result \<Rightarrow> 'b result" where
  "map_result f r = (case r of Inl e \<Rightarrow> Inl e | Inr x \<Rightarrow> Inr (f x))"

type_synonym ResolverFunc = "gval \<Rightarrow> (string \<times> gval) list \<Rightarrow> string + gval"

text \<open>
  A resolver returns a value or an error, here the error's message. The three tables
  are those of the Go struct; \<^verbatim>\<open>ExecuteSubscription\<close>, which reads the third one and hands
  on a channel, is not part of this development.
\<close>

record Executor =
  queryResolvers :: "string \<rightharpoonup> ResolverFunc"
  mutationResolvers :: "string \<rightharpoonup> ResolverFunc"
  subscriptionResolvers :: "string \<rightharpoonup> ResolverFunc"

definition executor_New :: Executor where
  "executor_New = \<lparr> queryResolvers = Map.empty, mutationResolvers = Map.empty,
                      subscriptionResolvers = Map.empty \<rparr>"

definition RegisterQueryResolver :: "string \<Rightarrow> ResolverFunc \<Rightarrow> Executor \<Rightarrow> Executor" where
  "RegisterQueryResolver field resolver e = e\<lparr> queryResolvers := (queryResolvers e)(field \<mapsto> resolver) \<rparr>"

definition RegisterMutationResolver :: "string \<Rightarrow> ResolverFunc \<Rightarrow> Executor \<Rightarrow> Executor" where
  "RegisterMutationResolver field resolver e =
     e\<lparr> mutationResolvers := (mutationResolvers e)(field \<mapsto> resolver) \<rparr>"

definition call_resolver :: "ResolverFunc \<Rightarrow> gval \<Rightarrow> (string \<times> gval) list \<Rightarrow> gval result" where
  \<comment> \<open>\<^verbatim>\<open>return resolver(source, args)\<close>: the resolver's error is the error of the call, unchanged\<close>
  "call_resolver resolver source args =
     (case resolver source args of Inl msg \<Rightarrow> Inl (Error msg) | Inr v \<Rightarrow> Inr v)"

subsection \<open>Argument materialization\<close>

text \<open>
  \<^verbatim>\<open>strconv.Atoi\<close> of the Go standard library, for the 64-bit \<^verbatim>\<open>int\<close>: an optional sign,
  then one or more decimal digits and nothing else, and the number must fit the type.
\<close>

definition decimal :: "string \<Rightarrow> int" where
  "decimal ds = foldl (\<lambda>n c. n * 10 + (int (of_char c) - 48)) 0 ds"

definition Atoi :: "string \<Rightarrow> int option" where
  "Atoi s =
     (let neg = (s \<noteq> [] \<and> hd s = CHR ''-'');
          ds = (if s \<noteq> [] \<and> (hd s = CHR ''-'' \<or> hd s = CHR ''+'') then tl s else s);
          v = (if neg then - decimal ds else decimal ds)
      in if ds = [] \<or> \<not> list_all isDigit ds then None
         else if - (2 ^ 63) \<le> v \<and> v < 2 ^ 63 then Some v
         else None)"

function buildValue :: "Value option \<Rightarrow> (string \<rightharpoonup> gval) \<Rightarrow> gval result"
and buildValue_object ::
      "(string \<times> Value option) list \<Rightarrow> (string \<rightharpoonup> gval) \<Rightarrow> (string \<times> gval) list
         \<Rightarrow> (string \<times> gval) list result"
and buildValue_array :: "Value option list \<Rightarrow> (string \<rightharpoonup> gval) \<Rightarrow> gval list \<Rightarrow> gval list result" where
  "buildValue None variables = Inl Panic"
| "buildValue (Some (MkValue kind literal objectFields elems)) variables =
     (if kind = ''Variable'' then
        (case variables literal of Some v \<Rightarrow> Inr v | None \<Rightarrow> Inr GNil)
      else if kind = ''Int'' then
        (case Atoi literal of None \<Rightarrow> Inr (GInt 0) | Some i \<Rightarrow> Inr (GInt i))
      else if kind = ''String'' then Inr (GString literal)
      else if kind = ''Boolean'' then Inr (GBool (literal = ''true''))
      else if kind = ''Object'' then map_result GMap (buildValue_object objectFields variables [])
      else if kind = ''Array'' then map_result GSlice (buildValue_array elems variables [])
      else Inr (GString literal))"
| "buildValue_object [] variables m = Inr m"
| "buildValue_object ((key, fieldVal) # rest) variables m =
     (case buildValue fieldVal variables of
        Inl e \<Rightarrow> Inl e
      | Inr v \<Rightarrow> buildValue_object rest variables (AList.update key v m))"
| "buildValue_array [] variables arr = Inr arr"
| "buildValue_array (elem # rest) variables arr =
     (case buildValue elem variables of
        Inl e \<Rightarrow> Inl e
      | Inr v \<Rightarrow> buildValue_array rest variables (arr @ [v]))"
  by pat_completeness auto
termination
  by (relation "measure (case_sum (\<lambda>(v, _). size_option size v)
                 (case_sum (\<lambda>(obj, _, _). size_list (size_prod (\<lambda>_. 0) (size_option size)) obj)
                           (\<lambda>(xs, _, _). size_list (size_option size) xs)))")
     auto

fun buildArgs_loop :: "Argument list \<Rightarrow> (string \<rightharpoonup> gval) \<Rightarrow> (string \<times> gval) list
                         \<Rightarrow> (string \<times> gval) list result" where
  "buildArgs_loop [] variables args = Inr args"
| "buildArgs_loop (arg # rest) variables args =
     (case buildValue (Arg_Value arg) variables of
        Inl e \<Rightarrow> Inl e
      | Inr v \<Rightarrow> buildArgs_loop rest variables (AList.update (Arg_Name arg) v args))"

definition buildArgs :: "Field \<Rightarrow> (string \<rightharpoonup> gval) \<Rightarrow> (string \<times> gval) list result" where
  "buildArgs field variables = buildArgs_loop (Arguments field) variables []"

subsection \<open>Field resolution\<close>

text \<open>
  \<^verbatim>\<open>strings.EqualFold\<close> of the Go standard library compares two strings rune by rune. The
  runes of a string are those of the conversion \<^verbatim>\<open>[]rune(s)\<close>: the UTF-8 decoding, in which
  every byte that starts no well-formed encoding is the rune U+FFFD of width one.
\<close>

definition RuneError :: nat where
  "RuneError = 65533"

definition continuation :: "nat \<Rightarrow> bool" where
  "continuation b = (128 \<le> b \<and> b \<le> 191)"

text \<open>\<^verbatim>\<open>utf8.DecodeRuneInString\<close> on a first byte and the bytes after it: the rune and its width.\<close>

definition DecodeRune :: "char \<Rightarrow> string \<Rightarrow> nat \<times> nat" where
  "DecodeRune c cs =
     (let b0 = (of_char c :: nat); bs = map of_char cs in
      if b0 < 128 then (b0, 1)
      else if 194 \<le> b0 \<and> b0 \<le> 223 then
        (case bs of
           b1 # _ \<Rightarrow>
             if continuation b1 then ((b0 - 192) * 64 + (b1 - 128), 2) else (RuneError, 1)
         | _ \<Rightarrow> (RuneError, 1))
      else if 224 \<le> b0 \<and> b0 \<le> 239 then
        (case bs of
           b1 # b2 # _ \<Rightarrow>
             if (if b0 = 224 then 160 else 128) \<le> b1 \<and> b1 \<le> (if b0 = 237 then 159 else 191)
                \<and> continuation b2
             then ((b0 - 224) * 4096 + (b1 - 128) * 64 + (b2 - 128), 3)
             else (RuneError, 1)
         | _ \<Rightarrow> (RuneError, 1))
      else if 240 \<le> b0 \<and> b0 \<le> 244 then
        (case bs of
           b1 # b2 # b3 # _ \<Rightarrow>
             if (if b0 = 240 then 144 else 128) \<le> b1 \<and> b1 \<le> (if b0 = 244 then 143 else 191)
                \<and> continuation b2 \<and> continuation b3
             then ((b0 - 240) * 262144 + (b1 - 128) * 4096 + (b2 - 128) * 64 + (b3 - 128), 4)
             else (RuneError, 1)
         | _ \<Rightarrow> (RuneError, 1))
      else (RuneError, 1))"

fun runes :: "string \<Rightarrow> nat list" where
  "runes [] = []"
| "runes (c # cs) = fst (DecodeRune c cs) # runes (drop (snd (DecodeRune c cs) - 1) cs)"

text \<open>
  Two runes are equal under folding when they are the same, when they are an ASCII letter
  in its two cases, or, with one of them beyond ASCII, when the larger is in the orbit of
  the smaller under \<^verbatim>\<open>unicode.SimpleFold\<close>. That orbit is a table of the standard library; the
  model takes it as the parameter \<open>orbit\<close>, a relation between a rune and a larger one.
\<close>

type_synonym FoldTable = "nat \<Rightarrow> nat \<Rightarrow> bool"

definition equalFoldRune :: "FoldTable \<Rightarrow> nat \<Rightarrow> nat \<Rightarrow> bool" where
  "equalFoldRune orbit sr tr =
     (sr = tr \<or>
      (let lo = min sr tr; hi = max sr tr in
       if hi < 128 then 65 \<le> lo \<and> lo \<le> 90 \<and> hi = lo + 32 else orbit lo hi))"

definition EqualFold :: "FoldTable \<Rightarrow> string \<Rightarrow> string \<Rightarrow> bool" where
  "EqualFold orbit s t = list_all2 (equalFoldRune orbit) (runes s) (runes t)"

definition Interface :: "StructField \<Rightarrow> gval \<Rightarrow> gval result" where
  \<comment> \<open>\<^verbatim>\<open>val.Field(i).Interface()\<close> panics when the field is not exported\<close>
  "Interface sf v = (if SF_Exported sf then Inr v else Inl Panic)"

fun reflectResolve_loop :: "FoldTable \<Rightarrow> (StructField \<times> gval) list \<Rightarrow> string \<Rightarrow> gval result" where
  "reflectResolve_loop orbit [] name = Inl (Error (NoResolverViaReflection name))"
| "reflectResolve_loop orbit ((sf, v) # rest) name =
     (if EqualFold orbit (SF_Name sf) name then Interface sf v
      else
        (case SF_JsonTag sf of
           Some tag \<Rightarrow>
             (if EqualFold orbit (takeWhile (\<lambda>c. c \<noteq> CHR '','') tag) name then Interface sf v
              else reflectResolve_loop orbit rest name)
         | None \<Rightarrow> reflectResolve_loop orbit rest name))"

definition reflectResolve :: "FoldTable \<Rightarrow> gval \<Rightarrow> Field option \<Rightarrow> gval result" where
  "reflectResolve orbit source field =
     (if source = GPtr None then Inl (Error SourceNil)
      else
        (case (case source of GPtr (Some v) \<Rightarrow> v | _ \<Rightarrow> source) of
           GStruct fs \<Rightarrow>
             (case field of
                None \<Rightarrow> Inl Panic
              | Some f \<Rightarrow> reflectResolve_loop orbit fs (Field_Name f))
         | _ \<Rightarrow> Inl (Error SourceNotStruct)))"

definition resolveField ::
    "FoldTable \<Rightarrow> Executor \<Rightarrow> gval \<Rightarrow> Field option \<Rightarrow> (string \<rightharpoonup> gval) \<Rightarrow> gval result" where
  "resolveField orbit e source field variables =
     (if source = GNil then
        (case field of
           None \<Rightarrow> Inl Panic
         | Some f \<Rightarrow>
             (case queryResolvers e (Field_Name f) of
                Some resolver \<Rightarrow>
                  (case buildArgs f variables of
                     Inl x \<Rightarrow> Inl x
                   | Inr args \<Rightarrow> call_resolver resolver source args)
              | None \<Rightarrow>
                  (case mutationResolvers e (Field_Name f) of
                     Some resolver \<Rightarrow>
                       (case buildArgs f variables of
                          Inl x \<Rightarrow> Inl x
                        | Inr args \<Rightarrow> call_resolver resolver source args)
                   | None \<Rightarrow> Inl (Error (NoResolver (Field_Name f))))))
      else reflectResolve orbit source field)"

subsection \<open>Selection sets\<close>

definition ast_size :: "SelectionSet option \<Rightarrow> nat" where
  "ast_size ss = size_option size ss"

lemma size_Field_SelectionSet: "Field_SelectionSet f = Some ss \<Longrightarrow> size ss < size f"
  by (cases f) simp

function executeSelectionSet ::
    "FoldTable \<Rightarrow> Executor \<Rightarrow> gval \<Rightarrow> SelectionSet option \<Rightarrow> (string \<rightharpoonup> gval)
       \<Rightarrow> (string \<times> gval) list result"
and executeSelectionSet_loop ::
    "FoldTable \<Rightarrow> Executor \<Rightarrow> gval \<Rightarrow> Selection list \<Rightarrow> (string \<rightharpoonup> gval) \<Rightarrow> (string \<times> gval) list
       \<Rightarrow> (string \<times> gval) list result"
and resolveNestedSelection ::
    "FoldTable \<Rightarrow> Executor \<Rightarrow> gval \<Rightarrow> SelectionSet option \<Rightarrow> (string \<rightharpoonup> gval) \<Rightarrow> gval result"
and resolveNestedSelection_loop ::
    "FoldTable \<Rightarrow> Executor \<Rightarrow> gval list \<Rightarrow> SelectionSet option \<Rightarrow> (string \<rightharpoonup> gval) \<Rightarrow> gval list
       \<Rightarrow> gval list result" where
  "executeSelectionSet orbit e source None variables = Inl Panic"
| "executeSelectionSet orbit e source (Some (MkSelectionSet sels)) variables =
     executeSelectionSet_loop orbit e source sels variables []"
| "executeSelectionSet_loop orbit e source [] variables result = Inr result"
| "executeSelectionSet_loop orbit e source (OtherSel # rest) variables result =
     executeSelectionSet_loop orbit e source rest variables result"
| "executeSelectionSet_loop orbit e source (FieldSel field # rest) variables result =
     (case resolveField orbit e source field variables of
        Inl err \<Rightarrow> Inl err
      | Inr res \<Rightarrow>
          (case field of
             None \<Rightarrow> Inl Panic
           | Some f \<Rightarrow>
               (if Field_SelectionSet f \<noteq> None then
                  (case resolveNestedSelection orbit e res (Field_SelectionSet f) variables of
                     Inl err \<Rightarrow> Inl err
                   | Inr nested \<Rightarrow>
                       executeSelectionSet_loop orbit e source rest variables
                         (AList.update (Field_Name f) nested result))
                else
                  executeSelectionSet_loop orbit e source rest variables
                    (AList.update (Field_Name f) res result))))"
| "resolveNestedSelection orbit e res ss variables =
     (case res of
        GPtr None \<Rightarrow> Inr res
      | GPtr (Some (GStruct fs)) \<Rightarrow> map_result GMap (executeSelectionSet orbit e res ss variables)
      | GStruct fs \<Rightarrow> map_result GMap (executeSelectionSet orbit e res ss variables)
      | GSlice items \<Rightarrow> map_result GSlice (resolveNestedSelection_loop orbit e items ss variables [])
      | _ \<Rightarrow> Inr res)"
| "resolveNestedSelection_loop orbit e [] ss variables arr = Inr arr"
| "resolveNestedSelection_loop orbit e (item # rest) ss variables arr =
     (case executeSelectionSet orbit e item ss variables of
        Inl err \<Rightarrow> Inl err
      | Inr sub \<Rightarrow> resolveNestedSelection_loop orbit e rest ss variables (arr @ [GMap sub]))"
  by pat_completeness auto
termination
  apply (relation "inv_image (less_than <*lex*> less_than <*lex*> less_than)
        (case_sum
           (case_sum (\<lambda>(orbit, e, src, ss, vars). (ast_size ss, 0, 0))
                     (\<lambda>(orbit, e, src, sels, vars, acc). (size_list size sels, 0, 0)))
           (case_sum (\<lambda>(orbit, e, res, ss, vars). (ast_size ss, 2, 0))
                     (\<lambda>(orbit, e, items, ss, vars, acc). (ast_size ss, 1, length items))))")
  apply (auto simp: ast_size_def)
  apply (drule size_Field_SelectionSet)
  apply simp
  done

definition Execute ::
    "FoldTable \<Rightarrow> Executor \<Rightarrow> Document \<Rightarrow> (string \<rightharpoonup> gval) \<Rightarrow> (string \<times> gval) list result" where
  "Execute orbit e doc variables =
     (case Definitions doc of
        [] \<Rightarrow> Inl (Error NoDefinitions)
      | TypeDef td # _ \<Rightarrow> Inl (Error UnsupportedDefinition)
      | OpDef op # _ \<Rightarrow>
          (case executeSelectionSet orbit e GNil (Op_SelectionSet op) variables of
             Inl err \<Rightarrow> Inl err
           | Inr data \<Rightarrow> Inr [(''data'', GMap data)]))"

subsection \<open>Notions the statements below use\<close>

text \<open>
  The results of a list of computations that are run one after the other, in their order;
  the first failure ends the run.
\<close>

fun collect :: "'a result list \<Rightarrow> 'a list result" where
  "collect [] = Inr []"
| "collect (r # rs) =
     (case r of
        Inl x \<Rightarrow> Inl x
      | Inr v \<Rightarrow> (case collect rs of Inl x \<Rightarrow> Inl x | Inr vs \<Rightarrow> Inr (v # vs)))"


text \<open>
  An executor returns an error when one of the resolvers of its query and mutation
  tables does, on some source and arguments.
\<close>

definition returns_error :: "Executor \<Rightarrow> string \<Rightarrow> bool" where
  "returns_error e msg =
     (\<exists>name resolver source args.
        (queryResolvers e name = Some resolver \<or> mutationResolvers e name = Some resolver) \<and>
        resolver source args = Inl msg)"

text \<open>The errors that the resolution of a selection set can end with.\<close>

definition resolution_error :: "Executor \<Rightarrow> string \<Rightarrow> bool" where
  "resolution_error e msg =
     (msg = SourceNil \<or> msg = SourceNotStruct \<or> (\<exists>name. msg = NoResolver name) \<or>
      (\<exists>name. msg = NoResolverViaReflection name) \<or> returns_error e msg)"

text \<open>When a struct field answers to a selected name.\<close>

definition matches :: "FoldTable \<Rightarrow> string \<Rightarrow> StructField \<Rightarrow> bool" where
  "matches orbit name sf =
     (EqualFold orbit (SF_Name sf) name \<or>
      (case SF_JsonTag sf of
         Some tag \<Rightarrow> EqualFold orbit (takeWhile (\<lambda>c. c \<noteq> CHR '','') tag) name
       | None \<Rightarrow> False))"

text \<open>
  A resolver that returns a pointer to a struct with an exported and an unexported field,
  \<^verbatim>\<open>struct { Name string `json:"name"`; password string }\<close>.
\<close>

definition account :: gval where
  "account =
     GPtr (Some (GStruct
       [(\<lparr> SF_Name = ''Name'', SF_JsonTag = Some ''name'', SF_Exported = True \<rparr>, GString ''John Doe''),
        (\<lparr> SF_Name = ''password'', SF_JsonTag = None, SF_Exported = False \<rparr>, GString ''hunter2'')]))"

definition accountResolver :: ResolverFunc where
  "accountResolver source args = Inr account"

text \<open>Resolvers and an executor for the examples, and a resolver that fails with a given
  error.\<close>

definition greet :: ResolverFunc where
  "greet source args = Inr (GString ''Hello, World!'')"

definition bump :: ResolverFunc where
  "bump source args =
     (case map_of args ''by'' of
        Some (GInt i) \<Rightarrow> Inr (GInt (i + 1))
      | _ \<Rightarrow> Inl ''by argument missing'')"

definition demo :: Executor where
  "demo = RegisterMutationResolver ''bump'' bump (RegisterQueryResolver ''greet'' greet executor_New)"

definition failing :: "string \<Rightarrow> ResolverFunc" where
  "failing msg source args = Inl msg"

text \<open>A table for the examples, which need a given one: the pairs within Latin-1, where a
  letter from U+00C0 to U+00DE other than U+00D7 has its lower case 32 places on.\<close>

definition latin1_fold :: FoldTable where
  "latin1_fold lo hi = (192 \<le> lo \<and> lo \<le> 222 \<and> lo \<noteq> 215 \<and> hi = lo + 32)"

section \<open>Properties of the lexer\<close>

lemma readChar_inv: "lexer_inv (readChar l)"
  by (simp add: lexer_inv_def readChar_def)

lemma readChar_input: "input (readChar l) = input l"
  by (simp add: readChar_def)

lemma readChar_position: "lexer_inv l \<Longrightarrow> position (readChar l) = position l + 1"
  by (simp add: lexer_inv_def readChar_def)

lemma lexer_New_inv: "lexer_inv (lexer_New s)"
  by (simp add: lexer_New_def readChar_inv)

lemma lexer_New_input: "input (lexer_New s) = s"
  by (simp add: lexer_New_def readChar_def)

lemma skipWhitespace_props:
  "lexer_inv l \<Longrightarrow>
     lexer_inv (skipWhitespace l) \<and> input (skipWhitespace l) = input l \<and>
     position l \<le> position (skipWhitespace l)"
proof (induction l rule: skipWhitespace.induct)
  case (1 l)
  show ?case
  proof (cases "isSpace (ch l)")
    case True
    have i: "lexer_inv (readChar l)" by (rule readChar_inv)
    have eq: "skipWhitespace l = skipWhitespace (readChar l)"
      using True by (subst skipWhitespace.simps) simp
    from 1(1) [OF True i] 1(2) show ?thesis
      unfolding eq by (simp add: readChar_input readChar_position)
  next
    case False
    then have "skipWhitespace l = l" by (subst skipWhitespace.simps) simp
    with 1 show ?thesis by simp
  qed
qed

lemma readIdentifier_loop_props:
  "lexer_inv l \<Longrightarrow>
     lexer_inv (readIdentifier_loop l) \<and> input (readIdentifier_loop l) = input l \<and>
     position l \<le> position (readIdentifier_loop l) \<and>
     position (readIdentifier_loop l) \<le> max (position l) (length (input l))"
proof (induction l rule: readIdentifier_loop.induct)
  case (1 l)
  show ?case
  proof (cases "isLetter (ch l) \<or> isDigit (ch l)")
    case True
    have i: "lexer_inv (readChar l)" by (rule readChar_inv)
    from True 1(2) have "position l < length (input l)"
      using isLetter_nul isDigit_nul by (auto simp: lexer_inv_def split: if_splits)
    then have p: "position l < length (input l)" .
    have eq: "readIdentifier_loop l = readIdentifier_loop (readChar l)"
      using True by (subst readIdentifier_loop.simps) simp
    from 1(1) [OF True i] p 1(2) show ?thesis
      unfolding eq by (simp add: readChar_input readChar_position)
  next
    case False
    then have "readIdentifier_loop l = l" by (subst readIdentifier_loop.simps) simp
    with 1 show ?thesis by simp
  qed
qed


lemma readNumber_loop_props:
  "lexer_inv l \<Longrightarrow>
     lexer_inv (readNumber_loop l) \<and> input (readNumber_loop l) = input l \<and>
     position l \<le> position (readNumber_loop l) \<and>
     position (readNumber_loop l) \<le> max (position l) (length (input l))"
proof (induction l rule: readNumber_loop.induct)
  case (1 l)
  show ?case
  proof (cases "isDigit (ch l)")
    case True
    have i: "lexer_inv (readChar l)" by (rule readChar_inv)
    from True 1(2) have p: "position l < length (input l)"
      using isDigit_nul by (auto simp: lexer_inv_def split: if_splits)
    have eq: "readNumber_loop l = readNumber_loop (readChar l)"
      using True by (subst readNumber_loop.simps) simp
    from 1(1) [OF True i] p 1(2) show ?thesis
      unfolding eq by (simp add: readChar_input readChar_position)
  next
    case False
    then have "readNumber_loop l = l" by (subst readNumber_loop.simps) simp
    with 1 show ?thesis by simp
  qed
qed

lemma readString_loop_props:
  "lexer_inv l \<Longrightarrow>
     lexer_inv (readString_loop l) \<and> input (readString_loop l) = input l \<and>
     position l \<le> position (readString_loop l) \<and>
     position (readString_loop l) \<le> max (position l) (length (input l))"
proof (induction l rule: readString_loop.induct)
  case (1 l)
  show ?case
  proof (cases "ch l \<noteq> CHR 0x22 \<and> ch l \<noteq> CHR 0x00")
    case True
    have i: "lexer_inv (readChar l)" by (rule readChar_inv)
    from True 1(2) have p: "position l < length (input l)"
      by (auto simp: lexer_inv_def split: if_splits)
    have eq: "readString_loop l = readString_loop (readChar l)"
      using True by (subst readString_loop.simps) simp
    from 1(1) [OF True i] p 1(2) show ?thesis
      unfolding eq by (simp add: readChar_input readChar_position)
  next
    case False
    then have "readString_loop l = l" by (subst readString_loop.simps) auto
    with 1 show ?thesis by simp
  qed
qed

lemma single_props:
  "lexer_inv l \<Longrightarrow>
     lexer_inv (snd (single t l)) \<and> input (snd (single t l)) = input l \<and>
     position l < position (snd (single t l)) \<and> Type (fst (single t l)) = t"
  by (simp add: single_def readChar_inv readChar_input readChar_position)

lemma readIdentifier_props:
  assumes "lexer_inv l" "isLetter (ch l)"
  shows "lexer_inv (snd (readIdentifier l)) \<and> input (snd (readIdentifier l)) = input l \<and>
         position l < position (snd (readIdentifier l))"
proof -
  have eq: "readIdentifier_loop l = readIdentifier_loop (readChar l)"
    using assms(2) by (subst readIdentifier_loop.simps) simp
  from readIdentifier_loop_props [OF readChar_inv, of l] assms(1) show ?thesis
    unfolding readIdentifier_def Let_def eq
    by (simp add: readChar_input readChar_position)
qed

lemma readNumber_props:
  assumes "lexer_inv l" "isDigit (ch l)"
  shows "lexer_inv (snd (readNumber l)) \<and> input (snd (readNumber l)) = input l \<and>
         position l < position (snd (readNumber l))"
proof -
  have eq: "readNumber_loop l = readNumber_loop (readChar l)"
    using assms(2) by (subst readNumber_loop.simps) simp
  from readNumber_loop_props [OF readChar_inv, of l] assms(1) show ?thesis
    unfolding readNumber_def Let_def eq
    by (simp add: readChar_input readChar_position)
qed

lemma readString_props:
  assumes "lexer_inv l"
  shows "lexer_inv (snd (readString l)) \<and> input (snd (readString l)) = input l \<and>
         position l < position (snd (readString l))"
proof -
  from readString_loop_props [OF readChar_inv, of l] assms show ?thesis
    unfolding readString_def Let_def
    by (simp add: readChar_input readChar_position readChar_inv)
qed


lemma NextToken_props:
  assumes "lexer_inv l"
  shows "lexer_inv (snd (NextToken l)) \<and> input (snd (NextToken l)) = input l \<and>
         position l < position (snd (NextToken l))"
proof -
  let ?l = "skipWhitespace l"
  from skipWhitespace_props [OF assms]
  have sw: "lexer_inv ?l" "input ?l = input l" "position l \<le> position ?l" by simp_all
  have a: "\<And>t. lexer_inv (snd (single t ?l)) \<and> input (snd (single t ?l)) = input l \<and>
         position l < position (snd (single t ?l))"
  proof -
    fix t
    from single_props [OF sw(1), of t] sw(2,3) show "?thesis t" by auto
  qed
  have b: "lexer_inv (snd (readString ?l)) \<and> input (snd (readString ?l)) = input l \<and>
         position l < position (snd (readString ?l))"
    using readString_props [OF sw(1)] sw(2,3) by simp
  have c: "isLetter (ch ?l) \<Longrightarrow> lexer_inv (snd (readIdentifier ?l)) \<and> input (snd (readIdentifier ?l)) = input l \<and>
         position l < position (snd (readIdentifier ?l))"
    using readIdentifier_props [OF sw(1)] sw(2,3) by simp
  have d: "isDigit (ch ?l) \<Longrightarrow> lexer_inv (snd (readNumber ?l)) \<and> input (snd (readNumber ?l)) = input l \<and>
         position l < position (snd (readNumber ?l))"
    using readNumber_props [OF sw(1)] sw(2,3) by simp
  have e: "lexer_inv (readChar ?l) \<and> input (readChar ?l) = input l \<and> position l < position (readChar ?l)"
    using sw by (simp add: readChar_inv readChar_input readChar_position)
  show ?thesis
    unfolding NextToken_def Let_def
    using a b c d e by (simp add: split_beta)
qed

lemma NextToken_EOF:
  "Type (fst (NextToken l)) = EOF \<longleftrightarrow> ch (skipWhitespace l) = CHR 0x00"
  unfolding NextToken_def Let_def
  by (simp add: split_beta single_def)

lemma NextToken_at_end:
  assumes "lexer_inv l" "length (input l) \<le> position l"
  shows "fst (NextToken l) = \<lparr> Type = EOF, Literal = [] \<rparr>"
proof -
  from assms have c: "ch l = CHR 0x00" by (simp add: lexer_inv_def)
  then have "skipWhitespace l = l" by (subst skipWhitespace.simps) (simp add: isSpace_def)
  with c show ?thesis
    unfolding NextToken_def Let_def by simp
qed

lemma lex_after_props:
  "lexer_inv l \<Longrightarrow>
     lexer_inv (lex_after n l) \<and> input (lex_after n l) = input l \<and>
     position l + n \<le> position (lex_after n l)"
proof (induction n arbitrary: l)
  case 0
  then show ?case by simp
next
  case (Suc n)
  from NextToken_props [OF Suc.prems]
  have s: "lexer_inv (snd (NextToken l))" "input (snd (NextToken l)) = input l"
    "position l < position (snd (NextToken l))" by simp_all
  from Suc.IH [OF s(1)] s(2,3) show ?case by simp
qed

lemma lex_after_add: "lex_after (n + k) l = lex_after k (lex_after n l)"
  by (induction n arbitrary: l) simp_all

lemma eof_within_length: "\<exists>n\<le>length s. nth_token s n = \<lparr> Type = EOF, Literal = [] \<rparr>"
proof -
  from lex_after_props [OF lexer_New_inv, of "length s" s]
  have "lexer_inv (lex_after (length s) (lexer_New s))"
    and "length (input (lex_after (length s) (lexer_New s))) \<le> position (lex_after (length s) (lexer_New s))"
    by (simp_all add: lexer_New_input)
  then have "nth_token s (length s) = \<lparr> Type = EOF, Literal = [] \<rparr>"
    unfolding nth_token_def by (rule NextToken_at_end)
  then show ?thesis by blast
qed

lemma eof_is_end:
  assumes "lexer_inv l" "CHR 0x00 \<notin> set (input l)" "Type (fst (NextToken l)) = EOF"
  shows "length (input l) \<le> position (snd (NextToken l))"
proof -
  let ?l = "skipWhitespace l"
  from skipWhitespace_props [OF assms(1)]
  have sw: "lexer_inv ?l" "input ?l = input l" by simp_all
  from assms(3) have c: "ch ?l = CHR 0x00" by (simp add: NextToken_EOF)
  have "length (input ?l) \<le> position ?l"
  proof (rule ccontr)
    assume "\<not> length (input ?l) \<le> position ?l"
    then have lt: "position ?l < length (input ?l)" by simp
    with sw(1) c have "input ?l ! position ?l = CHR 0x00" by (simp add: lexer_inv_def)
    with lt have "CHR 0x00 \<in> set (input ?l)" by (metis nth_mem)
    with sw(2) assms(2) show False by simp
  qed
  with sw(2) have "length (input l) \<le> position ?l" by simp
  moreover have "NextToken l = (\<lparr> Type = EOF, Literal = [] \<rparr>, readChar ?l)"
    unfolding NextToken_def Let_def using c by simp
  ultimately show ?thesis using sw(1) by (simp add: readChar_position)
qed

lemma eof_stays:
  assumes "CHR 0x00 \<notin> set s" "Type (nth_token s n) = EOF" "n < m"
  shows "nth_token s m = \<lparr> Type = EOF, Literal = [] \<rparr>"
proof -
  let ?l = "lex_after n (lexer_New s)"
  from lex_after_props [OF lexer_New_inv, of n s]
  have l: "lexer_inv ?l" "input ?l = s" by (simp_all add: lexer_New_input)
  from assms(2) have "Type (fst (NextToken ?l)) = EOF" by (simp add: nth_token_def)
  with eof_is_end [OF l(1)] l(2) assms(1)
  have e: "length s \<le> position (snd (NextToken ?l))" by simp
  from NextToken_props [OF l(1)] l(2)
  have l1: "lexer_inv (snd (NextToken ?l))" "input (snd (NextToken ?l)) = s" by simp_all
  obtain k where m: "m = Suc n + k" using assms(3) by (metis less_iff_Suc_add add_Suc)
  have "lex_after (Suc n) (lexer_New s) = snd (NextToken ?l)"
    using lex_after_add [of n 1 "lexer_New s"] by simp
  then have "lex_after m (lexer_New s) = lex_after k (snd (NextToken ?l))"
    unfolding m using lex_after_add [of "Suc n" k "lexer_New s"] by simp
  moreover from lex_after_props [OF l1(1), of k] l1(2) e
  have "lexer_inv (lex_after k (snd (NextToken ?l)))"
    "length (input (lex_after k (snd (NextToken ?l)))) \<le> position (lex_after k (snd (NextToken ?l)))"
    by simp_all
  ultimately show ?thesis
    unfolding nth_token_def using NextToken_at_end by simp
qed


lemma NextToken_EOF_token:
  assumes "Type (fst (NextToken l)) = EOF"
  shows "fst (NextToken l) = \<lparr> Type = EOF, Literal = [] \<rparr>"
proof -
  from assms have "ch (skipWhitespace l) = CHR 0x00" by (simp add: NextToken_EOF)
  then show ?thesis unfolding NextToken_def Let_def by simp
qed

text \<open>
  The slices of \<open>readIdentifier\<close>, \<open>readNumber\<close> and \<open>readString\<close> are within the bounds
  of the input, so the Go slice expressions do not panic.
\<close>

lemma slice_in_range:
  assumes "lexer_inv l"
  shows "isLetter (ch l) \<Longrightarrow>
           position l \<le> position (readIdentifier_loop l) \<and>
           position (readIdentifier_loop l) \<le> length (input (readIdentifier_loop l))"
    and "isDigit (ch l) \<Longrightarrow>
           position l \<le> position (readNumber_loop l) \<and>
           position (readNumber_loop l) \<le> length (input (readNumber_loop l))"
    and "ch l = CHR 0x22 \<Longrightarrow>
           position (readChar l) \<le> position (readString_loop (readChar l)) \<and>
           position (readString_loop (readChar l)) \<le> length (input (readString_loop (readChar l)))"
proof -
  have lt: "position l < length (input l)" if "ch l \<noteq> CHR 0x00"
    using that assms by (auto simp: lexer_inv_def split: if_splits)
  show "isLetter (ch l) \<Longrightarrow>
           position l \<le> position (readIdentifier_loop l) \<and>
           position (readIdentifier_loop l) \<le> length (input (readIdentifier_loop l))"
    using readIdentifier_loop_props [OF assms] lt isLetter_nul by (cases "ch l = CHR 0x00") auto
  show "isDigit (ch l) \<Longrightarrow>
           position l \<le> position (readNumber_loop l) \<and>
           position (readNumber_loop l) \<le> length (input (readNumber_loop l))"
    using readNumber_loop_props [OF assms] lt isDigit_nul by (cases "ch l = CHR 0x00") auto
  show "ch l = CHR 0x22 \<Longrightarrow>
           position (readChar l) \<le> position (readString_loop (readChar l)) \<and>
           position (readString_loop (readChar l)) \<le> length (input (readString_loop (readChar l)))"
    using readString_loop_props [OF readChar_inv, of l] lt assms
    by (auto simp: readChar_input readChar_position)
qed

text \<open>
  Claim C9, as the code has it. On every input the calls of \<open>NextToken\<close> reach an
  end-of-input token: one of the first \<open>length s + 1\<close> calls returns it. The byte 0 is the
  lexer's mark for the end of the input, so the token stays end-of-input from then on
  when the input itself holds no byte 0: if call \<open>n\<close> returns an end-of-input token, so does
  every call \<open>m\<close> from \<open>n\<close> on. On every input, with or without a byte 0, every call from
  call number \<open>length s\<close> on returns an end-of-input token.
\<close>

theorem NextToken_reaches_EOF_and_stays:
  "(\<exists>n\<le>length s. nth_token s n = \<lparr> Type = EOF, Literal = [] \<rparr>) \<and>
   (CHR 0x00 \<notin> set s \<longrightarrow> Type (nth_token s n) = EOF \<longrightarrow> n \<le> m \<longrightarrow>
      nth_token s m = \<lparr> Type = EOF, Literal = [] \<rparr>) \<and>
   (length s \<le> m \<longrightarrow> nth_token s m = \<lparr> Type = EOF, Literal = [] \<rparr>)"
proof -
  have "nth_token s m = \<lparr> Type = EOF, Literal = [] \<rparr>" if "length s \<le> m"
  proof -
    from lex_after_props [OF lexer_New_inv, of m s] that
    have "lexer_inv (lex_after m (lexer_New s))"
      and "length (input (lex_after m (lexer_New s))) \<le> position (lex_after m (lexer_New s))"
      by (simp_all add: lexer_New_input)
    then show ?thesis unfolding nth_token_def by (rule NextToken_at_end)
  qed
  moreover
  have "nth_token s m = \<lparr> Type = EOF, Literal = [] \<rparr>"
    if "CHR 0x00 \<notin> set s" "Type (nth_token s n) = EOF" "n \<le> m"
  proof (cases "n = m")
    case True
    with that(2) show ?thesis
      unfolding nth_token_def by (simp add: NextToken_EOF_token)
  next
    case False
    with that(3) have "n < m" by simp
    with that(1,2) show ?thesis by (rule eof_stays)
  qed
  ultimately show ?thesis using eof_within_length by blast
qed

theorem NextToken_reaches_EOF_and_stays_witness:
  "(\<exists>n\<le>length ''{ hello }''. nth_token ''{ hello }'' n = \<lparr> Type = EOF, Literal = [] \<rparr>) \<and>
   CHR 0x00 \<notin> set ''{ hello }'' \<and> Type (nth_token ''{ hello }'' 3) = EOF \<and> (3::nat) \<le> 9 \<and>
   length ''{ hello }'' \<le> 9 \<and>
   nth_token ''{ hello }'' 9 = \<lparr> Type = EOF, Literal = [] \<rparr>"
proof -
  have a: "CHR 0x00 \<notin> set ''{ hello }''" by simp
  have b: "Type (nth_token ''{ hello }'' 3) = EOF" by code_simp
  show ?thesis
    using NextToken_reaches_EOF_and_stays [of "''{ hello }''" 3 9] a b by simp
qed

text \<open>
  Claim C9 as the specification states it, for every input string, fails on an input with
  a byte 0 before its end: the first call returns the end-of-input token and the second
  call returns the identifier that follows the byte.
\<close>

theorem NextToken_after_EOF_counterexample:
  "nth_token [CHR 0x00, CHR ''a''] 0 = \<lparr> Type = EOF, Literal = [] \<rparr> \<and>
   nth_token [CHR 0x00, CHR ''a''] 1 = \<lparr> Type = IDENT, Literal = ''a'' \<rparr>"
  by code_simp


section \<open>Properties of the parser\<close>

subsection \<open>Fuel\<close>

text \<open>
  A parsing function that returns with some fuel returns the same with more: the fuel
  decides whether the model gets to the result, never what the result is.
\<close>

lemma parseType_mono: "parseType n p = Some r \<Longrightarrow> parseType (Suc n) p = Some r"
proof (induction n arbitrary: p r)
  case 0
  then show ?case by simp
next
  case (Suc n)
  from Suc.prems show ?case
    apply (subst (asm) parseType.simps(2))
    apply (subst parseType.simps(2))
    apply (auto simp del: parseType.simps simp: Let_def split: if_splits option.splits dest: Suc.IH)
    done
qed

lemma parseVariableDefinitions_body_mono:
  "parseVariableDefinitions_body n p vars = Some r \<Longrightarrow> parseVariableDefinitions_body (Suc n) p vars = Some r"
  unfolding parseVariableDefinitions_body_def
  by (auto simp: Let_def simp del: parseType.simps split: if_splits option.splits
           dest: parseType_mono [of n])

lemma parseVariableDefinitions_loop_mono:
  "parseVariableDefinitions_loop n p vars = Some r \<Longrightarrow> parseVariableDefinitions_loop (Suc n) p vars = Some r"
proof (induction n arbitrary: p vars r)
  case 0
  then show ?case by simp
next
  case (Suc n)
  from Suc.prems show ?case
    apply (subst (asm) parseVariableDefinitions_loop.simps(2))
    apply (subst parseVariableDefinitions_loop.simps(2))
    apply (auto simp del: parseVariableDefinitions_loop.simps split: if_splits option.splits sum.splits
                dest!: Suc.IH parseVariableDefinitions_body_mono [of n])
    done
qed


lemma parseValue_block_mono:
  "(\<forall>p r. parseValue n p = Some r \<longrightarrow> parseValue (Suc n) p = Some r) \<and>
   (\<forall>p r. parseObject n p = Some r \<longrightarrow> parseObject (Suc n) p = Some r) \<and>
   (\<forall>p acc r. parseObject_loop n p acc = Some r \<longrightarrow> parseObject_loop (Suc n) p acc = Some r) \<and>
   (\<forall>p r. parseArray n p = Some r \<longrightarrow> parseArray (Suc n) p = Some r) \<and>
   (\<forall>p acc r. parseArray_loop n p acc = Some r \<longrightarrow> parseArray_loop (Suc n) p acc = Some r)"
proof (induction n)
  case 0
  show ?case by simp
next
  case (Suc n)
  then have V: "\<And>p r. parseValue n p = Some r \<Longrightarrow> parseValue (Suc n) p = Some r"
    and O: "\<And>p r. parseObject n p = Some r \<Longrightarrow> parseObject (Suc n) p = Some r"
    and OL: "\<And>p acc r. parseObject_loop n p acc = Some r \<Longrightarrow> parseObject_loop (Suc n) p acc = Some r"
    and A: "\<And>p r. parseArray n p = Some r \<Longrightarrow> parseArray (Suc n) p = Some r"
    and AL: "\<And>p acc r. parseArray_loop n p acc = Some r \<Longrightarrow> parseArray_loop (Suc n) p acc = Some r"
    by blast+
  have 1: "parseValue (Suc (Suc n)) p = Some r" if "parseValue (Suc n) p = Some r" for p r
    using that
    apply (subst (asm) parseValue.simps(2))
    apply (subst parseValue.simps(2))
    apply (auto simp del: parseValue.simps parseObject.simps parseArray.simps simp: Let_def
                split: if_splits dest!: O A)
    done
  have 2: "parseObject (Suc (Suc n)) p = Some r" if "parseObject (Suc n) p = Some r" for p r
    using that
    apply (subst (asm) parseObject.simps(2))
    apply (subst parseObject.simps(2))
    apply (auto simp del: parseObject_loop.simps dest!: OL)
    done
  have 3: "parseObject_loop (Suc (Suc n)) p acc = Some r" if "parseObject_loop (Suc n) p acc = Some r" for p acc r
    using that
    apply (subst (asm) parseObject_loop.simps(2))
    apply (subst parseObject_loop.simps(2))
    apply (auto simp del: parseObject_loop.simps parseValue.simps simp: Let_def
                split: if_splits option.splits dest!: OL V)
    done
  have 4: "parseArray (Suc (Suc n)) p = Some r" if "parseArray (Suc n) p = Some r" for p r
    using that
    apply (subst (asm) parseArray.simps(2))
    apply (subst parseArray.simps(2))
    apply (auto simp del: parseArray_loop.simps dest!: AL)
    done
  have 5: "parseArray_loop (Suc (Suc n)) p acc = Some r" if "parseArray_loop (Suc n) p acc = Some r" for p acc r
    using that
    apply (subst (asm) parseArray_loop.simps(2))
    apply (subst parseArray_loop.simps(2))
    apply (auto simp del: parseArray_loop.simps parseValue.simps simp: Let_def
                split: if_splits option.splits dest!: AL V)
    done
  from 1 2 3 4 5 show ?case by blast
qed


lemmas parseValue_mono = parseValue_block_mono [THEN conjunct1, rule_format]

lemma parseArguments_body_mono:
  "parseArguments_body n p args = Some r \<Longrightarrow> parseArguments_body (Suc n) p args = Some r"
  unfolding parseArguments_body_def
  by (auto simp: Let_def simp del: parseValue.simps split: if_splits option.splits
           dest!: parseValue_mono [of n])

lemma parseArguments_loop_mono:
  "parseArguments_loop n p args = Some r \<Longrightarrow> parseArguments_loop (Suc n) p args = Some r"
proof (induction n arbitrary: p args r)
  case 0
  then show ?case by simp
next
  case (Suc n)
  from Suc.prems show ?case
    apply (subst (asm) parseArguments_loop.simps(2))
    apply (subst parseArguments_loop.simps(2))
    apply (auto simp del: parseArguments_loop.simps split: if_splits option.splits
                dest!: Suc.IH parseArguments_body_mono [of n])
    done
qed

lemma parseArguments_mono:
  "parseArguments n p = Some r \<Longrightarrow> parseArguments (Suc n) p = Some r"
  unfolding parseArguments_def by (rule parseArguments_loop_mono)

lemma parseSelectionSet_block_mono:
  "(\<forall>p r. parseSelectionSet n p = Some r \<longrightarrow> parseSelectionSet (Suc n) p = Some r) \<and>
   (\<forall>p acc r. parseSelectionSet_loop n p acc = Some r \<longrightarrow> parseSelectionSet_loop (Suc n) p acc = Some r) \<and>
   (\<forall>p r. parseSelection n p = Some r \<longrightarrow> parseSelection (Suc n) p = Some r) \<and>
   (\<forall>p r. parseField n p = Some r \<longrightarrow> parseField (Suc n) p = Some r)"
proof (induction n)
  case 0
  show ?case by simp
next
  case (Suc n)
  then have SS: "\<And>p r. parseSelectionSet n p = Some r \<Longrightarrow> parseSelectionSet (Suc n) p = Some r"
    and SL: "\<And>p acc r. parseSelectionSet_loop n p acc = Some r \<Longrightarrow> parseSelectionSet_loop (Suc n) p acc = Some r"
    and S: "\<And>p r. parseSelection n p = Some r \<Longrightarrow> parseSelection (Suc n) p = Some r"
    and F: "\<And>p r. parseField n p = Some r \<Longrightarrow> parseField (Suc n) p = Some r"
    by blast+
  have 1: "parseSelectionSet (Suc (Suc n)) p = Some r" if "parseSelectionSet (Suc n) p = Some r" for p r
    using that
    apply (subst (asm) parseSelectionSet.simps(2))
    apply (subst parseSelectionSet.simps(2))
    apply (auto simp del: parseSelectionSet_loop.simps dest!: SL)
    done
  have 2: "parseSelectionSet_loop (Suc (Suc n)) p acc = Some r"
    if "parseSelectionSet_loop (Suc n) p acc = Some r" for p acc r
    using that
    apply (subst (asm) parseSelectionSet_loop.simps(2))
    apply (subst parseSelectionSet_loop.simps(2))
    apply (auto simp del: parseSelectionSet_loop.simps parseSelection.simps
                split: if_splits option.splits dest!: SL S)
    done
  have 3: "parseSelection (Suc (Suc n)) p = Some r" if "parseSelection (Suc n) p = Some r" for p r
    using that
    apply (subst (asm) parseSelection.simps(2))
    apply (subst parseSelection.simps(2))
    apply (auto simp del: parseField.simps split: option.splits dest!: F)
    done
  have 4: "parseField (Suc (Suc n)) p = Some r" if "parseField (Suc n) p = Some r" for p r
    using that
    apply (subst (asm) parseField.simps(2))
    apply (subst parseField.simps(2))
    apply (auto simp del: parseField.simps parseSelectionSet.simps simp: Let_def
                split: if_splits option.splits dest!: SS parseArguments_mono [of n])
    done
  from 1 2 3 4 show ?case by blast
qed

lemmas parseSelectionSet_mono = parseSelectionSet_block_mono [THEN conjunct1, rule_format]

lemma parseVariableDefinitions_mono:
  "parseVariableDefinitions n p = Some r \<Longrightarrow> parseVariableDefinitions (Suc n) p = Some r"
  unfolding parseVariableDefinitions_def by (rule parseVariableDefinitions_loop_mono)

lemma parseOperationDefinition_mono:
  "parseOperationDefinition n p = Some r \<Longrightarrow> parseOperationDefinition (Suc n) p = Some r"
  unfolding parseOperationDefinition_def
  by (auto simp: Let_def simp del: parseSelectionSet.simps split: if_splits option.splits prod.splits
           dest!: parseSelectionSet_mono [of n] parseVariableDefinitions_mono [of n])


lemma skipParenBlock_loop_mono:
  "skipParenBlock_loop n p depth = Some r \<Longrightarrow> skipParenBlock_loop (Suc n) p depth = Some r"
proof (induction n arbitrary: p depth r)
  case 0
  then show ?case by simp
next
  case (Suc n)
  from Suc.prems show ?case
    apply (subst (asm) skipParenBlock_loop.simps(2))
    apply (subst skipParenBlock_loop.simps(2))
    apply (auto simp del: skipParenBlock_loop.simps split: if_splits dest!: Suc.IH)
    done
qed

lemma skipParenBlock_mono:
  "skipParenBlock n p = Some r \<Longrightarrow> skipParenBlock (Suc n) p = Some r"
  unfolding skipParenBlock_def
  by (auto simp del: skipParenBlock_loop.simps split: if_splits dest!: skipParenBlock_loop_mono [of n])

lemma parseTypeField_mono:
  "parseTypeField n p = Some r \<Longrightarrow> parseTypeField (Suc n) p = Some r"
  unfolding parseTypeField_def
  by (auto simp: Let_def split: if_splits option.splits dest!: skipParenBlock_mono [of n])

lemma skipTypeDefinition_loop_mono:
  "skipTypeDefinition_loop n name p flds it = Some r \<Longrightarrow>
   skipTypeDefinition_loop (Suc n) name p flds it = Some r"
proof (induction n arbitrary: p flds it r)
  case 0
  then show ?case by simp
next
  case (Suc n)
  from Suc.prems show ?case
    apply (subst (asm) skipTypeDefinition_loop.simps(2))
    apply (subst skipTypeDefinition_loop.simps(2))
    apply (auto simp del: skipTypeDefinition_loop.simps split: if_splits option.splits
                dest!: Suc.IH parseTypeField_mono [of n])
    done
qed

lemma skipTypeDefinition_mono:
  "skipTypeDefinition n p = Some r \<Longrightarrow> skipTypeDefinition (Suc n) p = Some r"
  unfolding skipTypeDefinition_def
  by (auto simp: Let_def simp del: skipTypeDefinition_loop.simps split: if_splits
           dest!: skipTypeDefinition_loop_mono [of n])

lemma parseDefinition_mono:
  "parseDefinition n p = Some r \<Longrightarrow> parseDefinition (Suc n) p = Some r"
  unfolding parseDefinition_def
  by (auto split: if_splits option.splits
           dest!: parseOperationDefinition_mono [of n] skipTypeDefinition_mono [of n])

lemma ParseDocument_loop_mono:
  "ParseDocument_loop n p defs = Some r \<Longrightarrow> ParseDocument_loop (Suc n) p defs = Some r"
proof (induction n arbitrary: p defs r)
  case 0
  then show ?case by simp
next
  case (Suc n)
  from Suc.prems show ?case
    apply (subst (asm) ParseDocument_loop.simps(2))
    apply (subst ParseDocument_loop.simps(2))
    apply (auto simp del: ParseDocument_loop.simps split: if_splits option.splits
                dest!: Suc.IH parseDefinition_mono [of n])
    done
qed

lemma parse_Suc: "parse n q = Some doc \<Longrightarrow> parse (Suc n) q = Some doc"
  unfolding parse_def ParseDocument_def by (rule ParseDocument_loop_mono)

lemma parse_more_fuel: "parse n q = Some doc \<Longrightarrow> parse (n + k) q = Some doc"
  by (induction k) (simp_all add: parse_Suc)

lemma parse_unique:
  assumes "parse n q = Some doc" "parse m q = Some doc'"
  shows "doc = doc'"
proof -
  from parse_more_fuel [OF assms(1), of m] parse_more_fuel [OF assms(2), of n]
  show ?thesis by (simp add: add.commute)
qed

subsection \<open>Loops that do not advance\<close>

text \<open>
  A list loop whose current token is none of the tokens its body or its exit test looks for
  does not move the cursor, and runs again in the same state: no fuel is enough.
\<close>

lemma parseSelectionSet_loop_stuck:
  "cur p \<noteq> RBRACE \<Longrightarrow> cur p \<noteq> EOF \<Longrightarrow> cur p \<noteq> IDENT \<Longrightarrow> cur p \<noteq> COMMA \<Longrightarrow>
   parseSelectionSet_loop n p sels = None"
proof (induction n arbitrary: sels)
  case 0
  show ?case by simp
next
  case (Suc n)
  show ?case
  proof (cases n)
    case 0
    with Suc.prems show ?thesis by simp
  next
    case (Suc m)
    with Suc.prems Suc.IH show ?thesis
      by (cases m) (simp_all add: skipComma_def)
  qed
qed

lemma parseArguments_loop_stuck:
  "cur p \<noteq> RPAREN \<Longrightarrow> cur p \<noteq> EOF \<Longrightarrow> cur p \<noteq> IDENT \<Longrightarrow> cur p \<noteq> COMMA \<Longrightarrow>
   parseArguments_loop n p args = None"
  by (induction n arbitrary: args) (simp_all add: parseArguments_body_def skipComma_def)

lemma parseVariableDefinitions_loop_stuck:
  "cur p \<noteq> RPAREN \<Longrightarrow> cur p \<noteq> EOF \<Longrightarrow> cur p \<noteq> DOLLAR \<Longrightarrow> cur p \<noteq> COMMA \<Longrightarrow>
   parseVariableDefinitions_loop n p vars = None"
  by (induction n arbitrary: vars) (simp_all add: parseVariableDefinitions_body_def skipComma_def)

text \<open>The first tokens of three queries.\<close>

lemma tokens_sel:
  fixes p0 defines "p0 \<equiv> parser_New (lexer_New ''{ 1 }'')"
  shows "curToken p0 = \<lparr> Type = LBRACE, Literal = ''{'' \<rparr>"
    and "curToken (nextToken p0) = \<lparr> Type = INT_tok, Literal = ''1'' \<rparr>"
  unfolding p0_def by code_simp+

lemma tokens_arg:
  fixes p0 defines "p0 \<equiv> parser_New (lexer_New ''{ a(1) }'')"
  shows "curToken p0 = \<lparr> Type = LBRACE, Literal = ''{'' \<rparr>"
    and "curToken (nextToken p0) = \<lparr> Type = IDENT, Literal = ''a'' \<rparr>"
    and "curToken (nextToken (nextToken p0)) = \<lparr> Type = LPAREN, Literal = ''('' \<rparr>"
    and "curToken (nextToken (nextToken (nextToken p0))) = \<lparr> Type = INT_tok, Literal = ''1'' \<rparr>"
  unfolding p0_def by code_simp+

lemma tokens_var:
  fixes p0 defines "p0 \<equiv> parser_New (lexer_New ''query (x) { a }'')"
  shows "curToken p0 = \<lparr> Type = IDENT, Literal = ''query'' \<rparr>"
    and "curToken (nextToken p0) = \<lparr> Type = LPAREN, Literal = ''('' \<rparr>"
    and "curToken (nextToken (nextToken p0)) = \<lparr> Type = IDENT, Literal = ''x'' \<rparr>"
  unfolding p0_def by code_simp+

lemma parse_sel_diverges: "parse n ''{ 1 }'' = None"
proof -
  let ?p0 = "parser_New (lexer_New ''{ 1 }'')"
  have "parseSelectionSet k ?p0 = None" for k
    by (cases k) (simp_all add: parseSelectionSet_loop_stuck tokens_sel)
  then have "parseDefinition k ?p0 = None" for k
    by (simp add: parseDefinition_def parseOperationDefinition_def isOperationKeyword_def tokens_sel)
  then show ?thesis
    unfolding parse_def ParseDocument_def by (cases n) (simp_all add: tokens_sel)
qed

lemma parse_arg_diverges: "parse n ''{ a(1) }'' = None"
proof -
  let ?p0 = "parser_New (lexer_New ''{ a(1) }'')"
  have "parseArguments k (nextToken (nextToken ?p0)) = None" for k
    by (simp add: parseArguments_def parseArguments_loop_stuck tokens_arg)
  then have "parseField k (nextToken ?p0) = None" for k
    by (cases k) (simp_all add: tokens_arg)
  then have "parseSelection k (nextToken ?p0) = None" for k
    by (cases k) simp_all
  then have "parseSelectionSet_loop k (nextToken ?p0) [] = None" for k
    by (cases k) (simp_all add: tokens_arg)
  then have "parseSelectionSet k ?p0 = None" for k
    by (cases k) simp_all
  then have "parseDefinition k ?p0 = None" for k
    by (simp add: parseDefinition_def parseOperationDefinition_def isOperationKeyword_def tokens_arg)
  then show ?thesis
    unfolding parse_def ParseDocument_def by (cases n) (simp_all add: tokens_arg)
qed

lemma parse_var_diverges: "parse n ''query (x) { a }'' = None"
proof -
  let ?p0 = "parser_New (lexer_New ''query (x) { a }'')"
  have "parseVariableDefinitions k (nextToken ?p0) = None" for k
    by (simp add: parseVariableDefinitions_def parseVariableDefinitions_loop_stuck tokens_var)
  then have "parseDefinition k ?p0 = None" for k
    by (simp add: parseDefinition_def parseOperationDefinition_def isOperationKeyword_def tokens_var)
  then show ?thesis
    unfolding parse_def ParseDocument_def by (cases n) (simp_all add: tokens_var)
qed

text \<open>
  Claim C1 says that \<open>ParseDocument\<close> returns on every input. The code does not: on the
  query \<^verbatim>\<open>{ 1 }\<close> the loop of \<open>parseSelectionSet\<close> stays at the token \<^verbatim>\<open>1\<close>, on
  \<^verbatim>\<open>{ a(1) }\<close> the loop of \<open>parseArguments\<close> does, and on \<^verbatim>\<open>query (x) { a }\<close> the loop of
  \<open>parseVariableDefinitions\<close> stays at \<^verbatim>\<open>x\<close>. Whatever the fuel \<open>n\<close>, parsing these
  three queries runs out of it.
\<close>

theorem ParseDocument_does_not_return:
  "parse n ''{ 1 }'' = None \<and> parse n ''{ a(1) }'' = None \<and> parse n ''query (x) { a }'' = None"
  by (simp add: parse_sel_diverges parse_arg_diverges parse_var_diverges)

lemma tokens_hello:
  fixes p0 defines "p0 \<equiv> parser_New (lexer_New ''{ hello }'')"
  shows "curToken p0 = \<lparr> Type = LBRACE, Literal = ''{'' \<rparr>"
    and "curToken (nextToken p0) = \<lparr> Type = IDENT, Literal = ''hello'' \<rparr>"
    and "curToken (nextToken (nextToken p0)) = \<lparr> Type = RBRACE, Literal = ''}'' \<rparr>"
    and "curToken (nextToken (nextToken (nextToken p0))) = \<lparr> Type = EOF, Literal = [] \<rparr>"
  unfolding p0_def by code_simp+

lemma parse_hello_fuel:
  "parse (Suc (Suc (Suc (Suc (Suc k))))) ''{ hello }'' =
     Some \<lparr> Definitions =
              [OpDef \<lparr> Operation = ''query'', Op_Name = [], VariableDefinitions = [],
                        Op_SelectionSet =
                          Some (MkSelectionSet [FieldSel (Some (MkField ''hello'' [] None))]) \<rparr>] \<rparr>"
  unfolding parse_def ParseDocument_def
  by (simp add: tokens_hello parseDefinition_def parseOperationDefinition_def
        isOperationKeyword_def skipComma_def)

text \<open>
  Claim C8. Parsing \<^verbatim>\<open>{ hello }\<close> returns (every fuel from 5 on is enough) the document
  with exactly one definition: an operation of kind \<^verbatim>\<open>query\<close> with an empty name, no
  variable definitions, and a selection set of exactly one field, named \<^verbatim>\<open>hello\<close>, with no
  arguments and no selection set of its own.
\<close>

theorem parse_hello:
  "5 \<le> n \<Longrightarrow>
   parse n ''{ hello }'' =
     Some \<lparr> Definitions =
              [OpDef \<lparr> Operation = ''query'', Op_Name = [], VariableDefinitions = [],
                        Op_SelectionSet =
                          Some (MkSelectionSet [FieldSel (Some (MkField ''hello'' [] None))]) \<rparr>] \<rparr>"
proof -
  assume "5 \<le> n"
  then obtain k where "n = 5 + k" using le_Suc_ex by blast
  then have "n = Suc (Suc (Suc (Suc (Suc k))))" by simp
  then show ?thesis by (simp only: parse_hello_fuel)
qed

theorem parse_hello_witness:
  "(5::nat) \<le> 5 \<and>
   parse 5 ''{ hello }'' =
     Some \<lparr> Definitions =
              [OpDef \<lparr> Operation = ''query'', Op_Name = [], VariableDefinitions = [],
                        Op_SelectionSet =
                          Some (MkSelectionSet [FieldSel (Some (MkField ''hello'' [] None))]) \<rparr>] \<rparr>"
  using parse_hello [of 5] by simp

text \<open>
  In general an operation that starts at a brace, with no keyword, is an unnamed query
  without variable definitions.
\<close>

lemma implicit_query:
  assumes "\<not> isOperationKeyword p" "parseOperationDefinition n p = Some (op, p')"
  shows "Operation op = ''query'' \<and> Op_Name op = [] \<and> VariableDefinitions op = []"
  using assms unfolding parseOperationDefinition_def
  by (auto split: if_splits option.splits)



section \<open>Properties of the executor\<close>

subsection \<open>Which failures can come from where\<close>

lemma map_result_simps [simp]:
  "map_result f (Inl e) = Inl e"
  "map_result f (Inr x) = Inr (f x)"
  by (simp_all add: map_result_def)

lemma map_result_Inl: "map_result f r = Inl e \<longleftrightarrow> r = Inl e"
  by (cases r) simp_all

lemma buildValue_failure:
  "buildValue v vars = Inl x \<Longrightarrow> x = Panic"
  "buildValue_object obj vars m = Inl x \<Longrightarrow> x = Panic"
  "buildValue_array xs vars arr = Inl x \<Longrightarrow> x = Panic"
proof (induction v vars and obj vars m and xs vars arr
       arbitrary: x and x and x rule: buildValue_buildValue_object_buildValue_array.induct)
  case (1 variables)
  then show ?case by simp
next
  case (2 kind literal objectFields elems variables)
  then show ?case
    by (auto simp: map_result_Inl split: if_splits option.splits)
next
  case (3 variables m)
  then show ?case by simp
next
  case (4 key fieldVal rest variables m)
  then show ?case by (auto split: sum.splits)
next
  case (5 variables arr)
  then show ?case by simp
next
  case (6 elem rest variables arr)
  then show ?case by (auto split: sum.splits)
qed

lemma buildArgs_loop_failure: "buildArgs_loop as vars args = Inl x \<Longrightarrow> x = Panic"
  by (induction as vars args rule: buildArgs_loop.induct)
     (auto split: sum.splits dest: buildValue_failure(1))

lemma buildArgs_failure: "buildArgs f vars = Inl x \<Longrightarrow> x = Panic"
  unfolding buildArgs_def by (rule buildArgs_loop_failure)

lemma call_resolver_error: "call_resolver r source args = Inl (Error m) \<Longrightarrow> r source args = Inl m"
  by (auto simp: call_resolver_def split: sum.splits)

lemma reflectResolve_loop_error:
  "reflectResolve_loop orbit fs name = Inl (Error m) \<Longrightarrow> m = NoResolverViaReflection name"
  by (induction orbit fs name rule: reflectResolve_loop.induct)
     (auto simp: Interface_def split: if_splits option.splits)

lemma reflectResolve_error:
  "reflectResolve orbit source field = Inl (Error m) \<Longrightarrow>
   m = SourceNil \<or> m = SourceNotStruct \<or> (\<exists>name. m = NoResolverViaReflection name)"
  unfolding reflectResolve_def
  by (auto split: if_splits gval.splits option.splits dest: reflectResolve_loop_error)

lemma resolveField_error:
  assumes "resolveField orbit e source field vars = Inl (Error m)"
  shows "resolution_error e m"
proof (cases "source = GNil")
  case False
  with assms have "reflectResolve orbit source field = Inl (Error m)"
    by (simp add: resolveField_def)
  from reflectResolve_error [OF this] show ?thesis
    by (auto simp: resolution_error_def)
next
  case True
  with assms obtain f where f: "field = Some f"
    by (cases field) (simp_all add: resolveField_def)
  show ?thesis
  proof (cases "queryResolvers e (Field_Name f)")
    case (Some r)
    with assms True f have "call_resolver r GNil (projr (buildArgs f vars)) = Inl (Error m)"
      by (auto simp: resolveField_def split: sum.splits dest: buildArgs_failure)
    from call_resolver_error [OF this] Some have "returns_error e m"
      unfolding returns_error_def by blast
    then show ?thesis by (simp add: resolution_error_def)
  next
    case None
    show ?thesis
    proof (cases "mutationResolvers e (Field_Name f)")
      case (Some r)
      with assms True f None have "call_resolver r GNil (projr (buildArgs f vars)) = Inl (Error m)"
        by (auto simp: resolveField_def split: sum.splits dest: buildArgs_failure)
      from call_resolver_error [OF this] Some have "returns_error e m"
        unfolding returns_error_def by blast
      then show ?thesis by (simp add: resolution_error_def)
    next
      case N: None
      with assms True f None have "m = NoResolver (Field_Name f)"
        by (simp add: resolveField_def)
      then show ?thesis by (auto simp: resolution_error_def)
    qed
  qed
qed

lemma executeSelectionSet_error:
  "executeSelectionSet orbit e source ss vars = Inl (Error m) \<Longrightarrow> resolution_error e m"
  "executeSelectionSet_loop orbit e source sels vars result = Inl (Error m) \<Longrightarrow> resolution_error e m"
  "resolveNestedSelection orbit e res ss vars = Inl (Error m) \<Longrightarrow> resolution_error e m"
  "resolveNestedSelection_loop orbit e items ss vars arr = Inl (Error m) \<Longrightarrow> resolution_error e m"
proof (induction orbit e source ss vars and orbit e source sels vars result
         and orbit e res ss vars and orbit e items ss vars arr
       rule: executeSelectionSet_executeSelectionSet_loop_resolveNestedSelection_resolveNestedSelection_loop.induct)
  case (1 orbit e source variables)
  then show ?case by simp
next
  case (2 orbit e source sels variables)
  then show ?case by simp
next
  case (3 orbit e source variables result)
  then show ?case by simp
next
  case (4 orbit e source rest variables result)
  then show ?case by simp
next
  case (5 orbit e source field rest variables result)
  then show ?case
    by (auto split: sum.splits option.splits if_splits dest: resolveField_error)
next
  case (6 orbit e res ss variables)
  then show ?case
    by (auto simp: map_result_Inl split: gval.splits option.splits)
next
  case (7 orbit e ss variables arr)
  then show ?case by simp
next
  case (8 orbit e item rest ss variables arr)
  then show ?case by (auto split: sum.splits)
qed

text \<open>The executor's own errors of field resolution have other texts than the two errors
  about the document.\<close>

lemma resolution_error_document:
  "resolution_error e NoDefinitions \<Longrightarrow> returns_error e NoDefinitions"
  "resolution_error e UnsupportedDefinition \<Longrightarrow> returns_error e UnsupportedDefinition"
  by (auto simp: resolution_error_def NoDefinitions_def UnsupportedDefinition_def SourceNil_def
        SourceNotStruct_def NoResolver_def NoResolverViaReflection_def)

lemma bump_error: "bump source args = Inl msg \<Longrightarrow> msg = ''by argument missing''"
  by (cases "map_of args ''by''"; cases "the (map_of args ''by'')") (auto simp: bump_def)

lemma demo_returns:
  "returns_error demo msg \<Longrightarrow> msg = ''by argument missing''"
  by (auto simp: returns_error_def demo_def RegisterQueryResolver_def RegisterMutationResolver_def
        executor_New_def greet_def split: if_splits dest: bump_error)

subsection \<open>The definitions of the document\<close>

text \<open>
  Claim C3, as the code has it. \<open>Execute\<close> fails with \<open>NoDefinitions\<close> when the document has no
  definition and with \<open>UnsupportedDefinition\<close> when its first definition is not an operation.
  It fails with these errors only then, provided that no resolver of the executor returns
  an error of the same text: the error of a resolver is handed on unchanged. When the
  first definition is an operation, the outcome of \<open>Execute\<close> is the outcome of resolving
  the selection set of that operation against the absent source, with the fields put under
  the key \<^verbatim>\<open>data\<close>; the definitions after the first one do not change the result.
\<close>

theorem Execute_definitions:
  "(Definitions doc = [] \<longrightarrow> Execute orbit e doc vars = Inl (Error NoDefinitions)) \<and>
   ((\<exists>td ds. Definitions doc = TypeDef td # ds) \<longrightarrow>
      Execute orbit e doc vars = Inl (Error UnsupportedDefinition)) \<and>
   (\<not> returns_error e NoDefinitions \<longrightarrow> Execute orbit e doc vars = Inl (Error NoDefinitions) \<longrightarrow>
      Definitions doc = []) \<and>
   (\<not> returns_error e UnsupportedDefinition \<longrightarrow>
      Execute orbit e doc vars = Inl (Error UnsupportedDefinition) \<longrightarrow>
      (\<exists>td ds. Definitions doc = TypeDef td # ds)) \<and>
   Execute orbit e \<lparr> Definitions = OpDef op # ds \<rparr> vars =
     (case executeSelectionSet orbit e GNil (Op_SelectionSet op) vars of
        Inl err \<Rightarrow> Inl err
      | Inr data \<Rightarrow> Inr [(''data'', GMap data)]) \<and>
   Execute orbit e \<lparr> Definitions = d # ds \<rparr> vars = Execute orbit e \<lparr> Definitions = [d] \<rparr> vars"
proof -
  have a: "returns_error e m"
    if "executeSelectionSet orbit e GNil ss vars = Inl (Error m)"
       "m = NoDefinitions \<or> m = UnsupportedDefinition" for ss m
    using executeSelectionSet_error(1) [OF that(1)] that(2) resolution_error_document by blast
  have n: "NoDefinitions \<noteq> UnsupportedDefinition"
    by (simp add: NoDefinitions_def UnsupportedDefinition_def)
  have 1: "Definitions doc = [] \<longrightarrow> Execute orbit e doc vars = Inl (Error NoDefinitions)"
    by (simp add: Execute_def)
  have 2: "(\<exists>td ds. Definitions doc = TypeDef td # ds) \<longrightarrow>
      Execute orbit e doc vars = Inl (Error UnsupportedDefinition)"
    by (auto simp: Execute_def)
  have 3: "\<not> returns_error e NoDefinitions \<longrightarrow> Execute orbit e doc vars = Inl (Error NoDefinitions) \<longrightarrow>
      Definitions doc = []"
    unfolding Execute_def using a n
    by (auto split: list.splits Definition.splits sum.splits)
  have 4: "\<not> returns_error e UnsupportedDefinition \<longrightarrow>
      Execute orbit e doc vars = Inl (Error UnsupportedDefinition) \<longrightarrow>
      (\<exists>td ds. Definitions doc = TypeDef td # ds)"
    unfolding Execute_def using a n
    by (auto split: list.splits Definition.splits sum.splits)
  have 5: "Execute orbit e \<lparr> Definitions = OpDef op # ds \<rparr> vars =
     (case executeSelectionSet orbit e GNil (Op_SelectionSet op) vars of
        Inl err \<Rightarrow> Inl err
      | Inr data \<Rightarrow> Inr [(''data'', GMap data)])"
    by (simp add: Execute_def)
  have 6: "Execute orbit e \<lparr> Definitions = d # ds \<rparr> vars = Execute orbit e \<lparr> Definitions = [d] \<rparr> vars"
    by (simp add: Execute_def split: Definition.splits)
  from 1 2 3 4 5 6 show ?thesis by blast
qed

theorem Execute_definitions_witness:
  "Definitions \<lparr> Definitions = [] \<rparr> = [] \<and>
   Execute latin1_fold demo \<lparr> Definitions = [] \<rparr> Map.empty = Inl (Error NoDefinitions) \<and>
   (\<exists>td ds. Definitions \<lparr> Definitions = [TypeDef \<lparr> TD_Name = ''Query'', Fields = [] \<rparr>] \<rparr> = TypeDef td # ds) \<and>
   Execute latin1_fold demo \<lparr> Definitions = [TypeDef \<lparr> TD_Name = ''Query'', Fields = [] \<rparr>] \<rparr> Map.empty
     = Inl (Error UnsupportedDefinition) \<and>
   \<not> returns_error demo NoDefinitions \<and> \<not> returns_error demo UnsupportedDefinition"
proof -
  have r: "\<not> returns_error demo NoDefinitions" "\<not> returns_error demo UnsupportedDefinition"
    using demo_returns by (auto simp: NoDefinitions_def UnsupportedDefinition_def)
  note t1 = Execute_definitions
     [where orbit = latin1_fold and e = demo and vars = Map.empty and doc = "\<lparr> Definitions = [] \<rparr>"]
  note t2 = Execute_definitions
     [where orbit = latin1_fold and e = demo and vars = Map.empty and
        doc = "\<lparr> Definitions = [TypeDef \<lparr> TD_Name = ''Query'', Fields = [] \<rparr>] \<rparr>"]
  show ?thesis using t1 t2 r by simp
qed

text \<open>
  Claim C3 as the specification states it, with \<open>NoDefinitions\<close> exactly when the document
  has no definition and \<open>UnsupportedDefinition\<close> exactly when the first definition is not an
  operation, fails on a document of one operation, \<^verbatim>\<open>{ f }\<close>, when the resolver of \<^verbatim>\<open>f\<close>
  returns an error of that text: \<open>Execute\<close> returns the error of the resolver.
\<close>

theorem Execute_resolver_error_counterexample:
  "Execute latin1_fold (RegisterQueryResolver ''f'' (failing NoDefinitions) executor_New)
     \<lparr> Definitions = [OpDef \<lparr> Operation = ''query'', Op_Name = [], VariableDefinitions = [],
          Op_SelectionSet = Some (MkSelectionSet [FieldSel (Some (MkField ''f'' [] None))]) \<rparr>] \<rparr>
     Map.empty = Inl (Error NoDefinitions) \<and>
   Execute latin1_fold (RegisterQueryResolver ''f'' (failing UnsupportedDefinition) executor_New)
     \<lparr> Definitions = [OpDef \<lparr> Operation = ''query'', Op_Name = [], VariableDefinitions = [],
          Op_SelectionSet = Some (MkSelectionSet [FieldSel (Some (MkField ''f'' [] None))]) \<rparr>] \<rparr>
     Map.empty = Inl (Error UnsupportedDefinition)"
  by (simp add: Execute_def resolveField_def buildArgs_def call_resolver_def failing_def
        RegisterQueryResolver_def executor_New_def)

text \<open>
  Claim C10. The result of \<open>Execute\<close> does not depend on the operation kind of the first
  definition: two documents that differ only there (\<open>k1\<close> in the one, \<open>k2\<close> in the other)
  give the same result with the same resolver tables and variables.
\<close>

theorem Execute_kind_independent:
  "Execute orbit e \<lparr> Definitions = OpDef (op\<lparr> Operation := k1 \<rparr>) # ds \<rparr> vars =
   Execute orbit e \<lparr> Definitions = OpDef (op\<lparr> Operation := k2 \<rparr>) # ds \<rparr> vars"
  by (simp add: Execute_def)

text \<open>
  Claim C2 says that \<open>Execute\<close> returns a result or an error on every document, also on an
  operation without a selection set. The parser returns such an operation for the query
  \<^verbatim>\<open>query\<close>, and \<open>Execute\<close> panics on every document that starts with one:
  \<open>executeSelectionSet\<close> reads \<^verbatim>\<open>ss.Selections\<close> through the nil pointer.
\<close>

theorem Execute_without_SelectionSet_panics:
  "parse 2 ''query'' =
     Some \<lparr> Definitions = [OpDef \<lparr> Operation = ''query'', Op_Name = [], VariableDefinitions = [],
                                      Op_SelectionSet = None \<rparr>] \<rparr> \<and>
   Execute orbit e \<lparr> Definitions = OpDef (op\<lparr> Op_SelectionSet := None \<rparr>) # ds \<rparr> vars = Inl Panic"
proof -
  have "parse 2 ''query'' =
     Some \<lparr> Definitions = [OpDef \<lparr> Operation = ''query'', Op_Name = [], VariableDefinitions = [],
                                      Op_SelectionSet = None \<rparr>] \<rparr>"
    by code_simp
  then show ?thesis by (simp add: Execute_def)
qed

text \<open>
  A nil field pointer has the same effect. The loop of \<open>parseSelectionSet\<close> appends the
  nil pointer that \<open>parseField\<close> returns at a comma, and \<open>resolveField\<close> reads the name
  through it.
\<close>

lemma Execute_nil_field_panics:
  "parse 6 ''{ , a }'' =
     Some \<lparr> Definitions = [OpDef \<lparr> Operation = ''query'', Op_Name = [], VariableDefinitions = [],
              Op_SelectionSet = Some (MkSelectionSet [FieldSel None,
                                                      FieldSel (Some (MkField ''a'' [] None))]) \<rparr>] \<rparr>"
  "Execute orbit e \<lparr> Definitions = [OpDef \<lparr> Operation = ''query'', Op_Name = [], VariableDefinitions = [],
              Op_SelectionSet = Some (MkSelectionSet [FieldSel None,
                                                      FieldSel (Some (MkField ''a'' [] None))]) \<rparr>] \<rparr>
           vars = Inl Panic"
proof -
  show "parse 6 ''{ , a }'' =
     Some \<lparr> Definitions = [OpDef \<lparr> Operation = ''query'', Op_Name = [], VariableDefinitions = [],
              Op_SelectionSet = Some (MkSelectionSet [FieldSel None,
                                                      FieldSel (Some (MkField ''a'' [] None))]) \<rparr>] \<rparr>"
    by code_simp
  show "Execute orbit e \<lparr> Definitions = [OpDef \<lparr> Operation = ''query'', Op_Name = [], VariableDefinitions = [],
              Op_SelectionSet = Some (MkSelectionSet [FieldSel None,
                                                      FieldSel (Some (MkField ''a'' [] None))]) \<rparr>] \<rparr>
           vars = Inl Panic"
    by (simp add: Execute_def resolveField_def)
qed


subsection \<open>Fields at the top level\<close>




subsection \<open>Fields of a source\<close>

text \<open>
  The loop of \<open>reflectResolve\<close> takes the first field of the struct, in declaration order,
  whose name or \<^verbatim>\<open>json\<close> tag name is the selected name up to case, and reads it through
  \<^verbatim>\<open>Interface()\<close>.
\<close>

lemma reflectResolve_loop_find:
  "reflectResolve_loop orbit fs name =
     (case find (\<lambda>(sf, v). matches orbit name sf) fs of
        None \<Rightarrow> Inl (Error (NoResolverViaReflection name))
      | Some (sf, v) \<Rightarrow> Interface sf v)"
  by (induction orbit fs name rule: reflectResolve_loop.induct)
     (auto simp: matches_def split: option.splits)

lemma reflectResolve_exported:
  assumes "find (\<lambda>(sf, v). matches orbit (Field_Name f) sf) fs = Some (sf, v)" "SF_Exported sf"
  shows "reflectResolve orbit (GStruct fs) (Some f) = Inr v"
    and "reflectResolve orbit (GPtr (Some (GStruct fs))) (Some f) = Inr v"
  using assms by (simp_all add: reflectResolve_def reflectResolve_loop_find Interface_def)

lemma reflectResolve_no_member:
  assumes "find (\<lambda>(sf, v). matches orbit (Field_Name f) sf) fs = None"
  shows "reflectResolve orbit (GStruct fs) (Some f) = Inl (Error (NoResolverViaReflection (Field_Name f)))"
    and "reflectResolve orbit (GPtr (Some (GStruct fs))) (Some f)
           = Inl (Error (NoResolverViaReflection (Field_Name f)))"
  using assms by (simp_all add: reflectResolve_def reflectResolve_loop_find)

lemma reflectResolve_nil_pointer: "reflectResolve orbit (GPtr None) field = Inl (Error SourceNil)"
  by (simp add: reflectResolve_def)

lemma reflectResolve_not_struct:
  "reflectResolve orbit (GString s) field = Inl (Error SourceNotStruct)"
  "reflectResolve orbit (GInt i) field = Inl (Error SourceNotStruct)"
  "reflectResolve orbit (GBool b) field = Inl (Error SourceNotStruct)"
  "reflectResolve orbit (GMap kvs) field = Inl (Error SourceNotStruct)"
  "reflectResolve orbit (GSlice items) field = Inl (Error SourceNotStruct)"
  "reflectResolve orbit (GOther x) field = Inl (Error SourceNotStruct)"
  "reflectResolve orbit (GPtr (Some (GPtr p))) field = Inl (Error SourceNotStruct)"
  by (simp_all add: reflectResolve_def)

text \<open>
  Claim C5 says that the lookup returns the value of a member with a matching name and
  fails with \<open>NoResolverViaReflection\<close> when there is none. The code does so for the exported
  fields of a struct. When the first field that matches is not exported, it stops with a
  panic instead: \<^verbatim>\<open>reflect.Value.Interface\<close> refuses a value that was read from an unexported
  field. Here a resolver for \<^verbatim>\<open>user\<close> returns a pointer to a struct with the unexported field
  \<^verbatim>\<open>password string\<close>, and the query is \<^verbatim>\<open>{ user { password } }\<close>: the lookup panics, and
  \<open>Execute\<close> with it.
\<close>

theorem reflectResolve_unexported_panics:
  "reflectResolve orbit account (Some (MkField ''password'' [] None)) = Inl Panic \<and>
   parse 9 ''{ user { password } }'' =
     Some \<lparr> Definitions = [OpDef \<lparr> Operation = ''query'', Op_Name = [], VariableDefinitions = [],
              Op_SelectionSet = Some (MkSelectionSet
                [FieldSel (Some (MkField ''user'' []
                   (Some (MkSelectionSet [FieldSel (Some (MkField ''password'' [] None))]))))]) \<rparr>] \<rparr> \<and>
   Execute orbit (RegisterQueryResolver ''user'' accountResolver executor_New)
     \<lparr> Definitions = [OpDef \<lparr> Operation = ''query'', Op_Name = [], VariableDefinitions = [],
              Op_SelectionSet = Some (MkSelectionSet
                [FieldSel (Some (MkField ''user'' []
                   (Some (MkSelectionSet [FieldSel (Some (MkField ''password'' [] None))]))))]) \<rparr>] \<rparr>
     vars = Inl Panic"
proof -
  have a: "reflectResolve orbit account (Some (MkField ''password'' [] None)) = Inl Panic"
    by code_simp
  have b: "parse 9 ''{ user { password } }'' =
     Some \<lparr> Definitions = [OpDef \<lparr> Operation = ''query'', Op_Name = [], VariableDefinitions = [],
              Op_SelectionSet = Some (MkSelectionSet
                [FieldSel (Some (MkField ''user'' []
                   (Some (MkSelectionSet [FieldSel (Some (MkField ''password'' [] None))]))))]) \<rparr>] \<rparr>"
    by code_simp
  have c: "account \<noteq> GNil" by (simp add: account_def)
  have d: "resolveNestedSelection orbit e account
             (Some (MkSelectionSet [FieldSel (Some (MkField ''password'' [] None))])) vars = Inl Panic" for e
    using a c by (simp add: account_def resolveField_def)
  show ?thesis
    using a b d
    by (simp add: Execute_def resolveField_def buildArgs_def call_resolver_def accountResolver_def
          RegisterQueryResolver_def executor_New_def)
qed

text \<open>The exported field of the same struct is found by its name in any case and by its tag.\<close>

lemma reflectResolve_account_name:
  "reflectResolve orbit account (Some (MkField ''NAME'' [] None)) = Inr (GString ''John Doe'')"
  "map_option (\<lambda>doc. Execute orbit (RegisterQueryResolver ''user'' accountResolver executor_New) doc Map.empty)
     (parse 9 ''{ user { name } }'')
     = Some (Inr [(''data'', GMap [(''user'', GMap [(''name'', GString ''John Doe'')])])])"
  by code_simp+

subsection \<open>Nested selection sets\<close>






subsection \<open>Argument materialization\<close>

text \<open>What \<open>buildValue\<close> returns for a value that is present, kind by kind.\<close>

lemma buildValue_array_collect:
  "buildValue_array elems vars arr =
     map_result (\<lambda>xs. arr @ xs) (collect (map (\<lambda>v. buildValue v vars) elems))"
proof (induction elems arbitrary: arr)
  case Nil
  show ?case by simp
next
  case (Cons elem rest)
  show ?case
  proof (cases "buildValue elem vars")
    case (Inl x)
    then show ?thesis by simp
  next
    case (Inr v)
    then show ?thesis
      by (cases "collect (map (\<lambda>v. buildValue v vars) rest)") (simp_all add: Cons.IH)
  qed
qed

lemma buildValue_kinds:
  "buildValue (Some (MkValue ''Variable'' s obj elems)) vars
     = Inr (case vars s of Some v \<Rightarrow> v | None \<Rightarrow> GNil)"
  "buildValue (Some (MkValue ''Int'' s obj elems)) vars
     = Inr (GInt (case Atoi s of Some i \<Rightarrow> i | None \<Rightarrow> 0))"
  "buildValue (Some (MkValue ''String'' s obj elems)) vars = Inr (GString s)"
  "buildValue (Some (MkValue ''Enum'' s obj elems)) vars = Inr (GString s)"
  "buildValue (Some (MkValue ''Boolean'' s obj elems)) vars = Inr (GBool (s = ''true''))"
  "buildValue (Some (MkValue ''Array'' s obj elems)) vars
     = map_result GSlice (collect (map (\<lambda>v. buildValue v vars) elems))"
  "buildValue (Some (MkValue ''Object'' s obj elems)) vars
     = map_result GMap (buildValue_object obj vars [])"
proof -
  show "buildValue (Some (MkValue ''Array'' s obj elems)) vars
     = map_result GSlice (collect (map (\<lambda>v. buildValue v vars) elems))"
    by (cases "collect (map (\<lambda>v. buildValue v vars) elems)")
       (simp_all add: buildValue_array_collect)
qed (simp_all split: option.splits)

text \<open>\<open>Atoi\<close> on a run of digits, as the lexer produces them: the decimal value when it fits
  64 bits, and a failure (which \<open>buildValue\<close> turns into 0) when it does not.\<close>

lemma Atoi_digits:
  assumes "ds \<noteq> []" "list_all isDigit ds"
  shows "Atoi ds = (if decimal ds < 2 ^ 63 then Some (decimal ds) else None)"
proof -
  from assms have h: "hd ds \<noteq> CHR ''-''" "hd ds \<noteq> CHR ''+''"
    by (cases ds; auto simp: isDigit_def)+
  have "0 \<le> foldl (\<lambda>n c. n * 10 + (int (of_char c) - 48)) a xs" if "0 \<le> a" "list_all isDigit xs"
    for a :: int and xs
    using that by (induction xs arbitrary: a) (auto simp: isDigit_def)
  with assms(2) have "0 \<le> decimal ds" by (simp add: decimal_def)
  with assms h show ?thesis by (simp add: Atoi_def)
qed

text \<open>
  Claim C7 says that argument materialization never raises an error, for every argument.
  The code does what the claim lists for every value that is present. An argument
  written without a value is different: for the query \<^verbatim>\<open>{ f(x) }\<close> the parser returns the
  argument \<^verbatim>\<open>x\<close> with a nil \<^verbatim>\<open>Value\<close>, \<open>buildValue\<close> reads \<^verbatim>\<open>val.Kind\<close> through the nil
  pointer, and \<open>Execute\<close> panics as soon as a resolver is registered for \<^verbatim>\<open>f\<close>.
\<close>

theorem buildValue_nil_panics:
  "parse 7 ''{ f(x) }'' =
     Some \<lparr> Definitions = [OpDef \<lparr> Operation = ''query'', Op_Name = [], VariableDefinitions = [],
              Op_SelectionSet = Some (MkSelectionSet
                [FieldSel (Some (MkField ''f'' [\<lparr> Arg_Name = ''x'', Arg_Value = None \<rparr>] None))]) \<rparr>] \<rparr> \<and>
   buildValue None vars = Inl Panic \<and>
   buildArgs (MkField ''f'' [\<lparr> Arg_Name = ''x'', Arg_Value = None \<rparr>] None) vars = Inl Panic \<and>
   Execute orbit (RegisterQueryResolver ''f'' r executor_New)
     \<lparr> Definitions = [OpDef \<lparr> Operation = ''query'', Op_Name = [], VariableDefinitions = [],
              Op_SelectionSet = Some (MkSelectionSet
                [FieldSel (Some (MkField ''f'' [\<lparr> Arg_Name = ''x'', Arg_Value = None \<rparr>] None))]) \<rparr>] \<rparr>
     vars = Inl Panic"
proof -
  have "parse 7 ''{ f(x) }'' =
     Some \<lparr> Definitions = [OpDef \<lparr> Operation = ''query'', Op_Name = [], VariableDefinitions = [],
              Op_SelectionSet = Some (MkSelectionSet
                [FieldSel (Some (MkField ''f'' [\<lparr> Arg_Name = ''x'', Arg_Value = None \<rparr>] None))]) \<rparr>] \<rparr>"
    by code_simp
  then show ?thesis
    by (simp add: Execute_def resolveField_def buildArgs_def RegisterQueryResolver_def executor_New_def)
qed


section \<open>The tests of the repository, on the model\<close>

text \<open>
  What the tests of the repository expect of the Go code holds of the model: the tokens
  of \<^verbatim>\<open>TestLexer_Numbers\<close>, \<^verbatim>\<open>TestLexer_Strings\<close> and \<^verbatim>\<open>TestLexer_IllegalCharacter\<close>, the
  documents of \<^verbatim>\<open>TestParseVariableDefinitions\<close> and
  \<^verbatim>\<open>TestOperationDefinitionWithNameAndVariables\<close>, and the results of
  \<^verbatim>\<open>TestExecutorWithRegisteredResolver\<close> and of the empty query.
\<close>

lemma test_lexer_numbers:
  "map (nth_token ''12345 67890'') [0, 1, 2] =
     [\<lparr> Type = INT_tok, Literal = ''12345'' \<rparr>, \<lparr> Type = INT_tok, Literal = ''67890'' \<rparr>,
      \<lparr> Type = EOF, Literal = [] \<rparr>]"
  by code_simp

lemma test_lexer_strings:
  "map (nth_token (CHR 0x22 # ''hello world'' @ [CHR 0x22, CHR '' '', CHR 0x22]
                     @ ''another string'' @ [CHR 0x22])) [0, 1, 2] =
     [\<lparr> Type = STRING, Literal = ''hello world'' \<rparr>, \<lparr> Type = STRING, Literal = ''another string'' \<rparr>,
      \<lparr> Type = EOF, Literal = [] \<rparr>]"
  by code_simp

lemma test_lexer_illegal_character:
  "map (nth_token ''@'') [0, 1] =
     [\<lparr> Type = ILLEGAL, Literal = ''@'' \<rparr>, \<lparr> Type = EOF, Literal = [] \<rparr>]"
  by code_simp

lemma test_parse_variable_definitions:
  "parse 5 ''query ($var: Int!) { hello }'' =
     Some \<lparr> Definitions =
       [OpDef \<lparr> Operation = ''query'', Op_Name = [],
                 VariableDefinitions = [\<lparr> Variable = ''var'', Var_Type = MkType ''Int'' True False None \<rparr>],
                 Op_SelectionSet =
                   Some (MkSelectionSet [FieldSel (Some (MkField ''hello'' [] None))]) \<rparr>] \<rparr>"
  by code_simp

lemma test_operation_with_name_and_variables:
  "parse 5 ''query MyQuery($id: Int) { hello }'' =
     Some \<lparr> Definitions =
       [OpDef \<lparr> Operation = ''query'', Op_Name = ''MyQuery'',
                 VariableDefinitions = [\<lparr> Variable = ''id'', Var_Type = MkType ''Int'' False False None \<rparr>],
                 Op_SelectionSet =
                   Some (MkSelectionSet [FieldSel (Some (MkField ''hello'' [] None))]) \<rparr>] \<rparr>"
  by code_simp

lemma test_executor_with_registered_resolver:
  "map_option (\<lambda>doc. Execute orbit demo doc Map.empty) (parse 5 ''{ greet }'') =
     Some (Inr [(''data'', GMap [(''greet'', GString ''Hello, World!'')])])"
  by code_simp

lemma test_no_definitions:
  "map_option (\<lambda>doc. Execute orbit demo doc Map.empty) (parse 1 []) = Some (Inl (Error NoDefinitions))"
  by code_simp


end
